theory Spec2Isabelle
  imports Complex_Main
begin

section \<open>JavaScript values used by the notifier\<close>

text \<open>
  The program is \<^verbatim>\<open>src/index.js\<close> (the version with the \<^verbatim>\<open>firstRun\<close> parameter and the
  working-hours gate). Only primitive values occur in the parts modelled here.
  \<^verbatim>\<open>===\<close> on primitives is equality of the values below, and \<^verbatim>\<open>!v\<close> is the negation of
  \<open>truthy\<close>.
\<close>

datatype jsval = Undefined | Null | JBool bool | JNum rat | JStr string

fun truthy :: "jsval \<Rightarrow> bool" where
  "truthy Undefined = False"
| "truthy Null = False"
| "truthy (JBool b) = b"
| "truthy (JNum r) = (r \<noteq> 0)"
| "truthy (JStr s) = (s \<noteq> [])"

text \<open>
  Numbers. \<open>NaN\<close> is what \<^verbatim>\<open>parseInt\<close> and the string-to-number conversion return on text
  that is not a number. Finite values are exact rationals: rounding and overflow of IEEE
  doubles are not modelled (epoch times in seconds and milliseconds are far inside the
  range where doubles are exact on integers).
\<close>

datatype jsnum = NaN | NegInf | Fin rat | PosInf

fun num_add :: "jsnum \<Rightarrow> jsnum \<Rightarrow> jsnum" where
  "num_add NaN _ = NaN"
| "num_add _ NaN = NaN"
| "num_add (Fin a) (Fin b) = Fin (a + b)"
| "num_add PosInf NegInf = NaN"
| "num_add NegInf PosInf = NaN"
| "num_add PosInf _ = PosInf"
| "num_add _ PosInf = PosInf"
| "num_add NegInf _ = NegInf"
| "num_add _ NegInf = NegInf"

fun num_scale :: "jsnum \<Rightarrow> rat \<Rightarrow> jsnum" where
  "num_scale (Fin a) k = Fin (a * k)"
| "num_scale n k = n"

fun num_neg :: "jsnum \<Rightarrow> jsnum" where
  "num_neg NaN = NaN"
| "num_neg NegInf = PosInf"
| "num_neg (Fin a) = Fin (- a)"
| "num_neg PosInf = NegInf"

text \<open>\<^verbatim>\<open>a <= b\<close> and \<^verbatim>\<open>a < b\<close> on numbers: false as soon as one side is \<open>NaN\<close>.\<close>

fun num_le :: "jsnum \<Rightarrow> jsnum \<Rightarrow> bool" where
  "num_le NaN _ = False"
| "num_le _ NaN = False"
| "num_le NegInf _ = True"
| "num_le _ PosInf = True"
| "num_le (Fin a) (Fin b) = (a \<le> b)"
| "num_le (Fin a) NegInf = False"
| "num_le PosInf _ = False"

fun num_lt :: "jsnum \<Rightarrow> jsnum \<Rightarrow> bool" where
  "num_lt NaN _ = False"
| "num_lt _ NaN = False"
| "num_lt PosInf _ = False"
| "num_lt _ NegInf = False"
| "num_lt (Fin a) (Fin b) = (a < b)"
| "num_lt NegInf _ = True"
| "num_lt (Fin a) PosInf = True"

definition ofParsed :: "int option \<Rightarrow> jsnum" where
  "ofParsed p = (case p of None \<Rightarrow> NaN | Some n \<Rightarrow> Fin (of_int n))"

subsection \<open>Strings and numbers\<close>

text \<open>White space is the ASCII part of the language's white space and line terminators.\<close>

definition isWhite :: "char \<Rightarrow> bool" where
  "isWhite c = (c \<in> set [CHR 0x09, CHR 0x0A, CHR 0x0B, CHR 0x0C, CHR 0x0D, CHR 0x20])"

definition digitTable :: "(char \<times> nat) list" where
  "digitTable =
     zip ''0123456789abcdef'' [0, 1, 2, 3, 4, 5, 6, 7, 8, 9, 10, 11, 12, 13, 14, 15] @
     zip ''ABCDEF'' [10, 11, 12, 13, 14, 15]"

definition radixDigit :: "nat \<Rightarrow> char \<Rightarrow> nat option" where
  "radixDigit r c =
     (case map_of digitTable c of
        None \<Rightarrow> None
      | Some d \<Rightarrow> if d < r then Some d else None)"

text \<open>The longest prefix of digits of the radix (as their values), and what follows it.\<close>

fun takeDigits :: "nat \<Rightarrow> string \<Rightarrow> nat list \<times> string" where
  "takeDigits r [] = ([], [])"
| "takeDigits r (c # cs) =
     (case radixDigit r c of
        None \<Rightarrow> ([], c # cs)
      | Some d \<Rightarrow> (case takeDigits r cs of (ds, rest) \<Rightarrow> (d # ds, rest)))"

definition digitsValue :: "nat \<Rightarrow> nat list \<Rightarrow> nat" where
  "digitsValue r ds = foldl (\<lambda>acc d. acc * r + d) 0 ds"

text \<open>
  \<^verbatim>\<open>parseInt(s)\<close> with no radix argument: leading white space, a sign, an optional
  \<^verbatim>\<open>0x\<close> prefix, then the longest run of digits; \<open>None\<close> is \<open>NaN\<close>.
\<close>

definition stripSign :: "string \<Rightarrow> bool \<times> string" where
  "stripSign s =
     (case s of
        [] \<Rightarrow> (False, [])
      | c # cs \<Rightarrow>
          if c = CHR ''-'' then (True, cs)
          else if c = CHR ''+'' then (False, cs)
          else (False, c # cs))"

definition parseInt :: "string \<Rightarrow> int option" where
  "parseInt str =
     (case stripSign (dropWhile isWhite str) of
        (neg, s) \<Rightarrow>
          (let hex = (take 2 s = ''0x'' \<or> take 2 s = ''0X'');
               r = (if hex then 16 else 10)
           in case takeDigits r (if hex then drop 2 s else s) of
                (ds, rest) \<Rightarrow>
                  if ds = [] then None
                  else Some ((if neg then - 1 else 1) * int (digitsValue r ds))))"

text \<open>
  The conversion of a string to a number that \<^verbatim>\<open><\<close>, \<^verbatim>\<open>>\<close> and \<^verbatim>\<open><=\<close> apply to a string
  operand when the other operand is a number: trimmed text; the empty text is 0; a
  signed decimal literal with optional fraction and exponent, \<^verbatim>\<open>Infinity\<close>, or an
  unsigned \<^verbatim>\<open>0x\<close>, \<^verbatim>\<open>0o\<close>, \<^verbatim>\<open>0b\<close> literal; anything else is \<open>NaN\<close>.
\<close>

definition trim :: "string \<Rightarrow> string" where
  "trim s = rev (dropWhile isWhite (rev (dropWhile isWhite s)))"

definition parseExponent :: "string \<Rightarrow> int option" where
  "parseExponent s =
     (case s of
        [] \<Rightarrow> Some 0
      | c # cs \<Rightarrow>
          if c = CHR ''e'' \<or> c = CHR ''E'' then
            (case stripSign cs of
               (neg, t) \<Rightarrow>
                 (case takeDigits 10 t of
                    (ds, rest) \<Rightarrow>
                      if ds = [] then None
                      else if rest = [] then Some ((if neg then - 1 else 1) * int (digitsValue 10 ds))
                      else None))
          else None)"

definition scaleByExponent :: "rat \<Rightarrow> int \<Rightarrow> rat" where
  "scaleByExponent x e = (if 0 \<le> e then x * 10 ^ nat e else x / 10 ^ nat (- e))"

definition parseUnsignedDecimal :: "string \<Rightarrow> jsnum" where
  "parseUnsignedDecimal s =
     (if s = ''Infinity'' then PosInf
      else
        (case takeDigits 10 s of
           (ip, r1) \<Rightarrow>
             (case r1 of
                [] \<Rightarrow> if ip = [] then NaN else Fin (of_nat (digitsValue 10 ip))
              | c # r2 \<Rightarrow>
                  if c = CHR ''.'' then
                    (case takeDigits 10 r2 of
                       (fp, r3) \<Rightarrow>
                         if ip = [] \<and> fp = [] then NaN
                         else
                           (case parseExponent r3 of
                              None \<Rightarrow> NaN
                            | Some e \<Rightarrow>
                                Fin (scaleByExponent
                                  (of_nat (digitsValue 10 (ip @ fp)) / 10 ^ length fp) e)))
                  else if ip = [] then NaN
                  else
                    (case parseExponent r1 of
                       None \<Rightarrow> NaN
                     | Some e \<Rightarrow> Fin (scaleByExponent (of_nat (digitsValue 10 ip)) e)))))"

definition parseRadixLiteral :: "nat \<Rightarrow> string \<Rightarrow> jsnum" where
  "parseRadixLiteral r s =
     (case takeDigits r s of
        (ds, rest) \<Rightarrow> if ds = [] then NaN else if rest = [] then Fin (of_nat (digitsValue r ds)) else NaN)"

definition toNumber :: "string \<Rightarrow> jsnum" where
  "toNumber str =
     (let t = trim str; p = take 2 t
      in if t = [] then Fin 0
         else if p = ''0x'' \<or> p = ''0X'' then parseRadixLiteral 16 (drop 2 t)
         else if p = ''0o'' \<or> p = ''0O'' then parseRadixLiteral 8 (drop 2 t)
         else if p = ''0b'' \<or> p = ''0B'' then parseRadixLiteral 2 (drop 2 t)
         else
           (case t of
              [] \<Rightarrow> Fin 0
            | c # cs \<Rightarrow>
                if c = CHR ''-'' then num_neg (parseUnsignedDecimal cs)
                else if c = CHR ''+'' then parseUnsignedDecimal cs
                else parseUnsignedDecimal t))"

text \<open>
  The decimal text of an integer-valued number (the result of \<^verbatim>\<open>parseInt\<close>), as string
  concatenation and template literals produce it. (Beyond \<open>10\<^sup>2\<^sup>1\<close> the language switches
  to exponent notation; epoch times are far below.)
\<close>

definition digitChar :: "nat \<Rightarrow> char" where
  "digitChar n = ''0123456789'' ! (n mod 10)"

fun natToString :: "nat \<Rightarrow> string" where
  "natToString n = (if n < 10 then [digitChar n] else natToString (n div 10) @ [digitChar n])"

declare natToString.simps [simp del]

definition numberToString :: "int option \<Rightarrow> string" where
  "numberToString p =
     (case p of
        None \<Rightarrow> ''NaN''
      | Some i \<Rightarrow> if i < 0 then CHR ''-'' # natToString (nat (- i)) else natToString (nat i))"

section \<open>Configuration\<close>

text \<open>
  \<^verbatim>\<open>process.env.X || d\<close>: an environment variable is a string when it is set, and the
  empty string is falsy, so the constant is either the non-empty text of the variable or
  the numeric default.
\<close>

datatype cfgval = CNum rat | CStr string

definition envOr :: "string option \<Rightarrow> rat \<Rightarrow> cfgval" where
  "envOr v d = (case v of None \<Rightarrow> CNum d | Some s \<Rightarrow> if s = [] then CNum d else CStr s)"

definition cfgToNumber :: "cfgval \<Rightarrow> jsnum" where
  "cfgToNumber c = (case c of CNum r \<Rightarrow> Fin r | CStr s \<Rightarrow> toNumber s)"

text \<open>
  \<open>slackUserIds\<close> holds the own properties of the object, filled from the delimited
  string at startup. \<open>authDelay\<close> is taken as a number of milliseconds (a text there
  would make the argument of \<^verbatim>\<open>new Date\<close> a text, whose reading is left to the runtime).
\<close>

record config =
  pollingDelay :: cfgval
  authDelay :: rat
  exitWarningOffset :: cfgval
  workingStarTime :: cfgval
  workingStopTime :: cfgval
  slackUserIds :: "string \<rightharpoonup> string"

definition sundayDayOfWeek :: nat where
  "sundayDayOfWeek = 1"

definition saturdayDayOfWeek :: nat where
  "saturdayDayOfWeek = 6"

definition weekendSleepTime :: rat where
  "weekendSleepTime = 6 * 60 * 60 * 1000"

definition afterHoursSleepTime :: rat where
  "afterHoursSleepTime = 60 * 60 * 1000"

text \<open>The configuration read from the environment, each variable set or not.\<close>

definition configOfEnv ::
  "string option \<Rightarrow> string option \<Rightarrow> string option \<Rightarrow> string option \<Rightarrow>
   (string \<rightharpoonup> string) \<Rightarrow> config" where
  "configOfEnv envPolling envWarning envStart envStop ids =
     \<lparr> pollingDelay = envOr envPolling (60 * 1000),
       authDelay = 30 * 60 * 1000,
       exitWarningOffset = envOr envWarning (5 * 60),
       workingStarTime = envOr envStart 8,
       workingStopTime = envOr envStop 18,
       slackUserIds = ids \<rparr>"

subsection \<open>The recipient mapping\<close>

text \<open>
  \<^verbatim>\<open>s.split(c)\<close> for a separator of one character: the pieces between the separators,
  the empty pieces included.
\<close>

fun splitOn :: "char \<Rightarrow> string \<Rightarrow> string list" where
  "splitOn sep [] = [[]]"
| "splitOn sep (c # cs) =
     (if c = sep then [] # splitOn sep cs
      else (case splitOn sep cs of
              [] \<Rightarrow> [[c]]
            | w # ws \<Rightarrow> (c # w) # ws))"

text \<open>
  The loop that fills \<^verbatim>\<open>slackUserIds\<close> from \<^verbatim>\<open>CPN_SLACK_USER_IDS\<close>: an entry with fewer
  than two parts is skipped, a later entry overrides an earlier one with the same name.
  (Assigning a string to \<^verbatim>\<open>__proto__\<close> creates no property.)
\<close>

definition addSlackUser :: "(string \<rightharpoonup> string) \<Rightarrow> string \<Rightarrow> (string \<rightharpoonup> string)" where
  "addSlackUser ids user =
     (case splitOn CHR '':'' user of
        [] \<Rightarrow> ids
      | k # vs \<Rightarrow>
          (case vs of
             [] \<Rightarrow> ids
           | v # rest \<Rightarrow> if k = ''__proto__'' then ids else ids(k \<mapsto> v)))"

definition parseSlackUserIds :: "string \<Rightarrow> (string \<rightharpoonup> string)" where
  "parseSlackUserIds text = foldl addSlackUser Map.empty (splitOn CHR '';'' text)"

subsection \<open>Property lookup on a plain object\<close>

text \<open>
  \<^verbatim>\<open>slackUserIds\<close> is created as \<^verbatim>\<open>{}\<close>, so \<^verbatim>\<open>slackUserIds[k]\<close> finds an own property
  first and otherwise a property inherited from \<^verbatim>\<open>Object.prototype\<close>; it is
  \<^verbatim>\<open>undefined\<close> (here \<open>None\<close>) only when neither exists.
\<close>

definition objectPrototypeKeys :: "string list" where
  "objectPrototypeKeys =
     [''constructor'', ''hasOwnProperty'', ''isPrototypeOf'', ''propertyIsEnumerable'',
      ''toLocaleString'', ''toString'', ''valueOf'', ''__proto__'',
      ''__defineGetter__'', ''__defineSetter__'', ''__lookupGetter__'', ''__lookupSetter__'']"

datatype property = Own string | Inherited string

definition getProperty :: "(string \<rightharpoonup> string) \<Rightarrow> string \<Rightarrow> property option" where
  "getProperty obj k =
     (case obj k of
        Some v \<Rightarrow> Some (Own v)
      | None \<Rightarrow> if k \<in> set objectPrototypeKeys then Some (Inherited k) else None)"

section \<open>Occupants and snapshots\<close>

text \<open>
  The objects that \<^verbatim>\<open>getChargePointStationQueueDetail\<close> builds. Field names carry a prefix
  because both kinds of object have \<^verbatim>\<open>id\<close>, \<^verbatim>\<open>name\<close>, \<^verbatim>\<open>status\<close> and \<^verbatim>\<open>outlet\<close>. A name is
  only ever used as a property key and inside a template literal, so it is modelled by
  its string conversion; an outlet is only ever used as a property key of the two
  outlet tables, and outlet numbers are modelled as naturals.
\<close>

record chargingUser =
  cu_id :: jsval
  cu_name :: string
  cu_status :: jsval
  cu_startTime :: jsnum
  cu_outlet :: nat
  exitNotified :: bool

record onHoldUser =
  oh_id :: jsval
  oh_name :: string
  oh_status :: jsval
  oh_outlet :: nat
  waitingNotified :: bool

record stationQueueDetail =
  maxChargingTime :: "int option"
  currTime :: "int option"
  detailChargingUsers :: "chargingUser list"
  detailOnHoldUsers :: "onHoldUser list"

text \<open>
  The remote records, \<^verbatim>\<open>response.data.response.message\<close>. A missing property reads as
  \<open>Undefined\<close>; the fields given to \<^verbatim>\<open>parseInt\<close> are the text it converts.
\<close>

record remoteChargingUser =
  subscriberId :: jsval
  subscriberEvatarName :: string
  subscriberQueueState :: jsval
  pluginEpochTime :: string
  outletNumber :: nat

record remoteOnHoldUser =
  oh_subscriberId :: jsval
  oh_subscriberEvatarName :: string
  portQueueSubState :: jsval
  oh_outletNumber :: nat

record remoteMessage =
  msg_maxChargingTime :: string
  msg_currTime :: string
  msg_chargingUsers :: "remoteChargingUser list"
  msg_onHoldUsers :: "remoteOnHoldUser list"

definition toChargingUser :: "remoteChargingUser \<Rightarrow> chargingUser" where
  "toChargingUser user =
     \<lparr> cu_id = subscriberId user,
       cu_name = subscriberEvatarName user,
       cu_status = subscriberQueueState user,
       cu_startTime = num_scale (ofParsed (parseInt (pluginEpochTime user))) (1 / 1000),
       cu_outlet = outletNumber user,
       exitNotified = False \<rparr>"

definition toOnHoldUser :: "remoteOnHoldUser \<Rightarrow> onHoldUser" where
  "toOnHoldUser user =
     \<lparr> oh_id = oh_subscriberId user,
       oh_name = oh_subscriberEvatarName user,
       oh_status = portQueueSubState user,
       oh_outlet = oh_outletNumber user,
       waitingNotified = False \<rparr>"

text \<open>The object returned by \<^verbatim>\<open>getChargePointStationQueueDetail\<close> for a received message.\<close>

definition queueDetailOfMessage :: "remoteMessage \<Rightarrow> stationQueueDetail" where
  "queueDetailOfMessage data =
     \<lparr> maxChargingTime = parseInt (msg_maxChargingTime data),
       currTime = parseInt (msg_currTime data),
       detailChargingUsers =
         filter (\<lambda>user. cu_id user \<noteq> Undefined) (map toChargingUser (msg_chargingUsers data)),
       detailOnHoldUsers = map toOnHoldUser (msg_onHoldUsers data) \<rparr>"

text \<open>
  A rejected request, or a body without the expected shape (the property access throws),
  rejects the promise; the error is the left summand.
\<close>

datatype error = RequestFailed string | TypeError string

definition getChargePointStationQueueDetail ::
  "error + remoteMessage \<Rightarrow> error + stationQueueDetail" where
  "getChargePointStationQueueDetail response =
     (case response of Inl e \<Rightarrow> Inl e | Inr data \<Rightarrow> Inr (queueDetailOfMessage data))"

section \<open>The diff and notify engine\<close>

text \<open>
  A message handed to \<^verbatim>\<open>sendSlackMessage\<close>. The constructor records which message it is
  and the values interpolated into its text; the outlet is recorded with it so that a
  message can be attributed to the outlet whose entry produced it. The end time of a
  session is the argument of \<^verbatim>\<open>new Date\<close>, in milliseconds; its formatting in local time
  is left to the runtime, and so is what \<^verbatim>\<open>sendSlackMessage\<close> does with the text (it logs
  it or posts it to the webhook, and swallows a failure of the post).
\<close>

datatype notification =
  SessionStarted nat string jsnum
| AlmostUp nat property
| YourTurn nat property

text \<open>
  \<^verbatim>\<open>startTime + maxChargingTime <= currTime + exitWarningOffset\<close>. The left operands are
  numbers. On the right, \<^verbatim>\<open>+\<close> adds when the offset is a number and concatenates when it
  is a string; \<^verbatim>\<open><=\<close> then converts the resulting string to a number.
\<close>

definition warningDeadline :: "int option \<Rightarrow> cfgval \<Rightarrow> jsnum" where
  "warningDeadline currT offset =
     (case offset of
        CNum d \<Rightarrow> num_add (ofParsed currT) (Fin d)
      | CStr s \<Rightarrow> toNumber (numberToString currT @ s))"

definition timeAlmostUp :: "jsnum \<Rightarrow> int option \<Rightarrow> int option \<Rightarrow> cfgval \<Rightarrow> bool" where
  "timeAlmostUp start maxTime currT offset =
     num_le (num_add start (ofParsed maxTime)) (warningDeadline currT offset)"

text \<open>
  The callback of \<^verbatim>\<open>stationQueueDetail.chargingUsers.forEach\<close>, on the table
  \<^verbatim>\<open>chargingUsers\<close> (an outlet without an object reads as \<open>None\<close>: \<^verbatim>\<open>null\<close> and
  \<^verbatim>\<open>undefined\<close> are both falsy). The stored object is the snapshot's own object; no
  other reference to it is used again, so storing it is storing its value.
\<close>

definition chargingCallback ::
  "jsval \<Rightarrow> config \<Rightarrow> int option \<Rightarrow> int option \<Rightarrow> chargingUser \<Rightarrow>
   (nat \<Rightarrow> chargingUser option) \<Rightarrow> (nat \<Rightarrow> chargingUser option) \<times> notification list" where
  "chargingCallback firstRun cfg maxTime currT user table =
     (let outlet = cu_outlet user;
          isNew = (case table outlet of None \<Rightarrow> True | Some occ \<Rightarrow> cu_id occ \<noteq> cu_id user);
          table1 = (if isNew then table(outlet \<mapsto> user) else table);
          out1 =
            (if isNew \<and> \<not> truthy firstRun
             then [SessionStarted outlet (cu_name user)
                     (num_scale (num_add (cu_startTime user) (ofParsed maxTime)) 1000)]
             else [])
      in case table1 outlet of
           None \<Rightarrow> (table1, out1)
         | Some occ \<Rightarrow>
             (case getProperty (slackUserIds cfg) (cu_name occ) of
                None \<Rightarrow> (table1, out1)
              | Some recipient \<Rightarrow>
                  if cu_status occ = JStr ''CHARGING'' \<and>
                     timeAlmostUp (cu_startTime occ) maxTime currT (exitWarningOffset cfg) \<and>
                     \<not> exitNotified occ
                  then (table1(outlet \<mapsto> occ\<lparr>exitNotified := True\<rparr>),
                        out1 @ [AlmostUp outlet recipient])
                  else (table1, out1)))"

text \<open>The callback of \<^verbatim>\<open>stationQueueDetail.onHoldUsers.forEach\<close>, on \<^verbatim>\<open>onHoldUsers\<close>.\<close>

definition onHoldCallback ::
  "config \<Rightarrow> onHoldUser \<Rightarrow> (nat \<Rightarrow> onHoldUser option) \<Rightarrow>
   (nat \<Rightarrow> onHoldUser option) \<times> notification list" where
  "onHoldCallback cfg user table =
     (let outlet = oh_outlet user;
          isNew = (case table outlet of None \<Rightarrow> True | Some occ \<Rightarrow> oh_id occ \<noteq> oh_id user);
          table1 = (if isNew then table(outlet \<mapsto> user) else table)
      in case table1 outlet of
           None \<Rightarrow> (table1, [])
         | Some occ \<Rightarrow>
             (case getProperty (slackUserIds cfg) (oh_name occ) of
                None \<Rightarrow> (table1, [])
              | Some recipient \<Rightarrow>
                  if oh_status occ = JStr ''ACCEPT_PENDING'' \<and> \<not> waitingNotified occ
                  then (table1(outlet \<mapsto> occ\<lparr>waitingNotified := True\<rparr>),
                        [YourTurn outlet recipient])
                  else (table1, [])))"

text \<open>The two \<^verbatim>\<open>forEach\<close> loops: the entries in order, the messages in the order sent.\<close>

fun forEachCharging ::
  "jsval \<Rightarrow> config \<Rightarrow> int option \<Rightarrow> int option \<Rightarrow> chargingUser list \<Rightarrow>
   (nat \<Rightarrow> chargingUser option) \<Rightarrow> (nat \<Rightarrow> chargingUser option) \<times> notification list" where
  "forEachCharging firstRun cfg maxTime currT [] table = (table, [])"
| "forEachCharging firstRun cfg maxTime currT (user # users) table =
     (case chargingCallback firstRun cfg maxTime currT user table of
        (table1, out1) \<Rightarrow>
          (case forEachCharging firstRun cfg maxTime currT users table1 of
             (table2, out2) \<Rightarrow> (table2, out1 @ out2)))"

fun forEachOnHold ::
  "config \<Rightarrow> onHoldUser list \<Rightarrow> (nat \<Rightarrow> onHoldUser option) \<Rightarrow>
   (nat \<Rightarrow> onHoldUser option) \<times> notification list" where
  "forEachOnHold cfg [] table = (table, [])"
| "forEachOnHold cfg (user # users) table =
     (case onHoldCallback cfg user table of
        (table1, out1) \<Rightarrow>
          (case forEachOnHold cfg users table1 of
             (table2, out2) \<Rightarrow> (table2, out1 @ out2)))"

section \<open>The poll cycle\<close>

text \<open>The module-level variables.\<close>

record monitorState =
  chargePointToken :: "string option"
  lastAuth :: "int option"
  chargingUsers :: "nat \<Rightarrow> chargingUser option"
  onHoldUsers :: "nat \<Rightarrow> onHoldUser option"

definition initialState :: monitorState where
  "initialState =
     \<lparr> chargePointToken = None, lastAuth = None,
       chargingUsers = (\<lambda>outlet. None), onHoldUsers = (\<lambda>outlet. None) \<rparr>"

text \<open>The part of \<^verbatim>\<open>pollChargePoint\<close> after the fetch: both loops on a snapshot.\<close>

definition processQueueDetail ::
  "jsval \<Rightarrow> config \<Rightarrow> stationQueueDetail \<Rightarrow> monitorState \<Rightarrow> monitorState \<times> notification list" where
  "processQueueDetail firstRun cfg detail st =
     (case forEachCharging firstRun cfg (maxChargingTime detail) (currTime detail)
             (detailChargingUsers detail) (chargingUsers st) of
        (charging1, out1) \<Rightarrow>
          (case forEachOnHold cfg (detailOnHoldUsers detail) (onHoldUsers st) of
             (onHold1, out2) \<Rightarrow>
               (st\<lparr>chargingUsers := charging1, onHoldUsers := onHold1\<rparr>, out1 @ out2)))"

text \<open>
  What one invocation reads from outside: the wall clock (\<^verbatim>\<open>getDay()\<close> counts from
  Sunday = 0 to Saturday = 6; times are in milliseconds), and the outcome of each of the
  two requests, should the invocation make it.
\<close>

record environment =
  getDay :: nat
  getHours :: nat
  timeAtCheck :: int
  timeAfterAuth :: int
  tokenResponse :: "error + string option"
  queueResponse :: "error + remoteMessage"

definition generateChargePointToken :: "error + string option \<Rightarrow> error + string option" where
  "generateChargePointToken response = response"

text \<open>
  \<^verbatim>\<open>!chargePointToken || new Date(lastAuth.getTime() + authDelay) <= new Date()\<close>, then the
  refresh. \<^verbatim>\<open>lastAuth\<close> is assigned whenever the token is; in a state where it is not,
  \<^verbatim>\<open>lastAuth.getTime()\<close> throws.
\<close>

definition tokenIsDue :: "config \<Rightarrow> environment \<Rightarrow> monitorState \<Rightarrow> error + bool" where
  "tokenIsDue cfg env st =
     (case chargePointToken st of
        None \<Rightarrow> Inr True
      | Some tok \<Rightarrow>
          if tok = [] then Inr True
          else (case lastAuth st of
                  None \<Rightarrow> Inl (TypeError ''lastAuth is undefined'')
                | Some t \<Rightarrow> Inr (of_int t + authDelay cfg \<le> of_int (timeAtCheck env))))"

definition authenticate :: "config \<Rightarrow> environment \<Rightarrow> monitorState \<Rightarrow> error + monitorState" where
  "authenticate cfg env st =
     (case tokenIsDue cfg env st of
        Inl e \<Rightarrow> Inl e
      | Inr due \<Rightarrow>
          if due then
            (case generateChargePointToken (tokenResponse env) of
               Inl e \<Rightarrow> Inl e
             | Inr tok \<Rightarrow> Inr (st\<lparr>chargePointToken := tok, lastAuth := Some (timeAfterAuth env)\<rparr>))
          else Inr st)"

text \<open>
  A timer set with \<^verbatim>\<open>setTimeout(pollChargePoint, delay, ...arguments)\<close>: when it fires,
  the function is called with the arguments given after the delay. Each of the three
  calls in the source (lines 294, 297 and 361) gives the function and a delay only.
\<close>

record timerCall =
  delay :: cfgval
  arguments :: "jsval list"

text \<open>
  The result of one invocation of the asynchronous function: the variables afterwards,
  the messages sent, the timer it set if it set one, and how its promise settled.
\<close>

datatype settlement = Resolved | Rejected error

record pollResult =
  stateAfter :: monitorState
  sent :: "notification list"
  timerSet :: "timerCall option"
  settled :: settlement

text \<open>The delay of the timer an invocation set, if it set one.\<close>

definition timer :: "pollResult \<Rightarrow> cfgval option" where
  "timer r = map_option delay (timerSet r)"

definition pollChargePoint :: "jsval \<Rightarrow> config \<Rightarrow> environment \<Rightarrow> monitorState \<Rightarrow> pollResult" where
  "pollChargePoint firstRun cfg env st =
     (if getDay env = sundayDayOfWeek \<or> getDay env = saturdayDayOfWeek then
        \<lparr> stateAfter = st, sent = [],
          timerSet = Some \<lparr> delay = CNum weekendSleepTime, arguments = [] \<rparr>,
          settled = Resolved \<rparr>
      else if num_lt (Fin (of_nat (getHours env))) (cfgToNumber (workingStarTime cfg)) \<or>
              num_lt (cfgToNumber (workingStopTime cfg)) (Fin (of_nat (getHours env))) then
        \<lparr> stateAfter = st, sent = [],
          timerSet = Some \<lparr> delay = CNum afterHoursSleepTime, arguments = [] \<rparr>,
          settled = Resolved \<rparr>
      else
        (case authenticate cfg env st of
           Inl e \<Rightarrow> \<lparr> stateAfter = st, sent = [], timerSet = None, settled = Rejected e \<rparr>
         | Inr st1 \<Rightarrow>
             (case getChargePointStationQueueDetail (queueResponse env) of
                Inl e \<Rightarrow> \<lparr> stateAfter = st1, sent = [], timerSet = None, settled = Rejected e \<rparr>
              | Inr detail \<Rightarrow>
                  (case processQueueDetail firstRun cfg detail st1 of
                     (st2, out) \<Rightarrow>
                       \<lparr> stateAfter = st2, sent = out,
                         timerSet = Some \<lparr> delay = pollingDelay cfg, arguments = [] \<rparr>,
                         settled = Resolved \<rparr>))))"

text \<open>
  A call binds the parameter \<^verbatim>\<open>firstRun\<close> to its first argument, and to \<^verbatim>\<open>undefined\<close>
  when it has none.
\<close>

definition firstParameter :: "jsval list \<Rightarrow> jsval" where
  "firstParameter args = (case args of [] \<Rightarrow> Undefined | a # rest \<Rightarrow> a)"

text \<open>
  The run of the program: the call \<^verbatim>\<open>pollChargePoint(true)\<close> at startup, then one call per
  timer that fires, with the arguments that the timer was set with. The list gives the
  environment of each successive invocation; the result lists the invocations made,
  each with the value of \<^verbatim>\<open>firstRun\<close> in it. The \<^verbatim>\<open>.then\<close> and \<^verbatim>\<open>.catch\<close> at startup only
  log.
\<close>

fun invocations ::
  "config \<Rightarrow> jsval list \<Rightarrow> environment list \<Rightarrow> monitorState \<Rightarrow> (jsval \<times> pollResult) list" where
  "invocations cfg args [] st = []"
| "invocations cfg args (env # envs) st =
     (let firstRun = firstParameter args;
          r = pollChargePoint firstRun cfg env st
      in (firstRun, r) #
         (case timerSet r of
            None \<Rightarrow> []
          | Some call \<Rightarrow> invocations cfg (arguments call) envs (stateAfter r)))"

definition program :: "config \<Rightarrow> environment list \<Rightarrow> (jsval \<times> pollResult) list" where
  "program cfg envs = invocations cfg [JBool True] envs initialState"

section \<open>Observing messages and runs\<close>

fun outletOf :: "notification \<Rightarrow> nat" where
  "outletOf (SessionStarted outlet nm e) = outlet"
| "outletOf (AlmostUp outlet r) = outlet"
| "outletOf (YourTurn outlet r) = outlet"

fun isSessionStarted :: "notification \<Rightarrow> bool" where
  "isSessionStarted (SessionStarted outlet nm e) = True"
| "isSessionStarted n = False"

fun isAlmostUp :: "notification \<Rightarrow> bool" where
  "isAlmostUp (AlmostUp outlet r) = True"
| "isAlmostUp n = False"

fun isYourTurn :: "notification \<Rightarrow> bool" where
  "isYourTurn (YourTurn outlet r) = True"
| "isYourTurn n = False"

text \<open>How many messages of a kind were sent for an outlet.\<close>

definition countAt :: "(notification \<Rightarrow> bool) \<Rightarrow> nat \<Rightarrow> notification list \<Rightarrow> nat" where
  "countAt kind outlet out = length (filter (\<lambda>n. kind n \<and> outletOf n = outlet) out)"

text \<open>
  Consecutive snapshots, each processed by one invocation with its own \<^verbatim>\<open>firstRun\<close>
  argument; the messages of all of them in the order sent.
\<close>

fun processAll ::
  "config \<Rightarrow> (jsval \<times> stationQueueDetail) list \<Rightarrow> monitorState \<Rightarrow>
   monitorState \<times> notification list" where
  "processAll cfg [] st = (st, [])"
| "processAll cfg ((firstRun, detail) # rest) st =
     (case processQueueDetail firstRun cfg detail st of
        (st1, out1) \<Rightarrow>
          (case processAll cfg rest st1 of
             (st2, out2) \<Rightarrow> (st2, out1 @ out2)))"

text \<open>
  Measures for the proofs that a message is sent at most once: how many messages of a
  kind an outlet can still produce for the occupant with identifier \<open>i\<close>.
\<close>

definition startBudget :: "(nat \<Rightarrow> chargingUser option) \<Rightarrow> nat \<Rightarrow> jsval \<Rightarrow> nat" where
  "startBudget table outlet i =
     (case table outlet of None \<Rightarrow> 1 | Some occ \<Rightarrow> if cu_id occ = i then 0 else 1)"

definition exitBudget :: "(nat \<Rightarrow> chargingUser option) \<Rightarrow> nat \<Rightarrow> jsval \<Rightarrow> nat" where
  "exitBudget table outlet i =
     (case table outlet of
        None \<Rightarrow> 1
      | Some occ \<Rightarrow> if cu_id occ = i \<and> exitNotified occ then 0 else 1)"

definition turnBudget :: "(nat \<Rightarrow> onHoldUser option) \<Rightarrow> nat \<Rightarrow> jsval \<Rightarrow> nat" where
  "turnBudget table outlet i =
     (case table outlet of
        None \<Rightarrow> 1
      | Some occ \<Rightarrow> if oh_id occ = i \<and> waitingNotified occ then 0 else 1)"

section \<open>A concrete station\<close>

text \<open>
  The inputs of the worked examples: the recipient mapping of the source's default
  (\<^verbatim>\<open>farzaddaei:WCMTDDDRV\<close>), no environment variable set, one subscriber charging on
  outlet 1 since second 1000 for at most 7200 seconds, and one subscriber on hold for
  the same outlet.
\<close>

definition defaultSlackUserIds :: "string \<rightharpoonup> string" where
  "defaultSlackUserIds = parseSlackUserIds ''farzaddaei:WCMTDDDRV''"

definition defaultConfig :: config where
  "defaultConfig = configOfEnv None None None None defaultSlackUserIds"

definition exampleCharging :: "string \<Rightarrow> remoteChargingUser" where
  "exampleCharging nm =
     \<lparr> subscriberId = JStr ''A'', subscriberEvatarName = nm,
       subscriberQueueState = JStr ''CHARGING'', pluginEpochTime = ''1000000'',
       outletNumber = 1 \<rparr>"

definition exampleOnHold :: remoteOnHoldUser where
  "exampleOnHold =
     \<lparr> oh_subscriberId = JStr ''B'', oh_subscriberEvatarName = ''farzaddaei'',
       portQueueSubState = JStr ''ACCEPT_PENDING'', oh_outletNumber = 1 \<rparr>"

definition exampleMessage :: "string \<Rightarrow> string \<Rightarrow> remoteMessage" where
  "exampleMessage nm now =
     \<lparr> msg_maxChargingTime = ''7200'', msg_currTime = now,
       msg_chargingUsers = [exampleCharging nm], msg_onHoldUsers = [exampleOnHold] \<rparr>"

definition exampleEnvironment :: "nat \<Rightarrow> nat \<Rightarrow> error + remoteMessage \<Rightarrow> environment" where
  "exampleEnvironment day hour response =
     \<lparr> getDay = day, getHours = hour, timeAtCheck = 0, timeAfterAuth = 0,
       tokenResponse = Inr (Some ''token''), queueResponse = response \<rparr>"

definition examplePolls :: "(jsval \<times> stationQueueDetail) list" where
  "examplePolls =
     [(Undefined, queueDetailOfMessage (exampleMessage ''farzaddaei'' ''1000'')),
      (Undefined, queueDetailOfMessage (exampleMessage ''farzaddaei'' ''7900'')),
      (Undefined, queueDetailOfMessage (exampleMessage ''farzaddaei'' ''7901''))]"

text \<open>
  A state in which outlet 1 already holds the same two subscribers, both already
  notified, with an older start time than the snapshots report; and a former occupant
  of outlet 1 with another identifier.
\<close>

definition exampleStored :: chargingUser where
  "exampleStored =
     \<lparr> cu_id = JStr ''A'', cu_name = ''farzaddaei'', cu_status = JStr ''CHARGING'',
       cu_startTime = Fin 500, cu_outlet = 1, exitNotified = True \<rparr>"

definition exampleHeld :: onHoldUser where
  "exampleHeld =
     \<lparr> oh_id = JStr ''B'', oh_name = ''farzaddaei'', oh_status = JStr ''ACCEPT_PENDING'',
       oh_outlet = 1, waitingNotified = True \<rparr>"

definition exampleState :: monitorState where
  "exampleState =
     \<lparr> chargePointToken = None, lastAuth = None,
       chargingUsers = (\<lambda>outlet. if outlet = 1 then Some exampleStored else None),
       onHoldUsers = (\<lambda>outlet. if outlet = 1 then Some exampleHeld else None) \<rparr>"

definition exampleFormer :: chargingUser where
  "exampleFormer =
     \<lparr> cu_id = JStr ''Z'', cu_name = ''farzaddaei'', cu_status = JStr ''CHARGING'',
       cu_startTime = Fin 0, cu_outlet = 1, exitNotified = True \<rparr>"

definition exampleUser :: chargingUser where
  "exampleUser = toChargingUser (exampleCharging ''farzaddaei'')"

definition exampleWaiting :: onHoldUser where
  "exampleWaiting = toOnHoldUser exampleOnHold"

definition exampleFormerTable :: "nat \<Rightarrow> chargingUser option" where
  "exampleFormerTable = (\<lambda>outlet. if outlet = 1 then Some exampleFormer else None)"

text \<open>
  A state in which outlet 1 holds the charging subscriber of the snapshots, not yet
  warned, and the on-hold subscriber, already notified.
\<close>

definition exampleChargingState :: monitorState where
  "exampleChargingState =
     \<lparr> chargePointToken = None, lastAuth = None,
       chargingUsers = (\<lambda>outlet. if outlet = 1 then Some exampleUser else None),
       onHoldUsers = (\<lambda>outlet. if outlet = 1 then Some exampleHeld else None) \<rparr>"


section \<open>Evaluating the concrete station\<close>

text \<open>
  The equations that evaluate the model on concrete inputs. The decimal text of a number
  is computed by the two conditional equations of \<open>natToString\<close>.
\<close>

lemma natToString_digit: "n < 10 \<Longrightarrow> natToString n = [digitChar n]"
  by (subst natToString.simps) simp

lemma natToString_more: "\<not> n < 10 \<Longrightarrow> natToString n = natToString (n div 10) @ [digitChar n]"
  by (subst natToString.simps) simp

lemmas number_defs = parseInt_def stripSign_def isWhite_def radixDigit_def digitTable_def
  digitsValue_def ofParsed_def toNumber_def trim_def parseUnsignedDecimal_def parseExponent_def
  parseRadixLiteral_def scaleByExponent_def numberToString_def natToString_digit natToString_more
  digitChar_def cfgToNumber_def

lemma default_mapping: "defaultSlackUserIds = [''farzaddaei'' \<mapsto> ''WCMTDDDRV'']"
  by (simp add: defaultSlackUserIds_def parseSlackUserIds_def addSlackUser_def)

lemmas station_defs = exampleMessage_def exampleCharging_def exampleOnHold_def exampleUser_def
  exampleWaiting_def exampleHeld_def exampleStored_def exampleChargingState_def
  exampleEnvironment_def defaultConfig_def default_mapping configOfEnv_def envOr_def
  queueDetailOfMessage_def toChargingUser_def toOnHoldUser_def

lemmas engine_defs = processQueueDetail_def chargingCallback_def onHoldCallback_def Let_def
  getProperty_def objectPrototypeKeys_def timeAlmostUp_def warningDeadline_def

lemmas cycle_defs = program_def firstParameter_def timer_def pollChargePoint_def authenticate_def
  tokenIsDue_def
  generateChargePointToken_def getChargePointStationQueueDetail_def initialState_def
  sundayDayOfWeek_def saturdayDayOfWeek_def weekendSleepTime_def afterHoursSleepTime_def

lemma ex_values:
  "examplePolls =
     [(Undefined, \<lparr>maxChargingTime = Some 7200, currTime = Some 1000,
         detailChargingUsers = [\<lparr>cu_id = JStr ''A'', cu_name = ''farzaddaei'', cu_status = JStr ''CHARGING'',
            cu_startTime = Fin 1000, cu_outlet = 1, exitNotified = False\<rparr>],
         detailOnHoldUsers = [\<lparr>oh_id = JStr ''B'', oh_name = ''farzaddaei'', oh_status = JStr ''ACCEPT_PENDING'',
            oh_outlet = 1, waitingNotified = False\<rparr>]\<rparr>),
      (Undefined, \<lparr>maxChargingTime = Some 7200, currTime = Some 7900,
         detailChargingUsers = [\<lparr>cu_id = JStr ''A'', cu_name = ''farzaddaei'', cu_status = JStr ''CHARGING'',
            cu_startTime = Fin 1000, cu_outlet = 1, exitNotified = False\<rparr>],
         detailOnHoldUsers = [\<lparr>oh_id = JStr ''B'', oh_name = ''farzaddaei'', oh_status = JStr ''ACCEPT_PENDING'',
            oh_outlet = 1, waitingNotified = False\<rparr>]\<rparr>),
      (Undefined, \<lparr>maxChargingTime = Some 7200, currTime = Some 7901,
         detailChargingUsers = [\<lparr>cu_id = JStr ''A'', cu_name = ''farzaddaei'', cu_status = JStr ''CHARGING'',
            cu_startTime = Fin 1000, cu_outlet = 1, exitNotified = False\<rparr>],
         detailOnHoldUsers = [\<lparr>oh_id = JStr ''B'', oh_name = ''farzaddaei'', oh_status = JStr ''ACCEPT_PENDING'',
            oh_outlet = 1, waitingNotified = False\<rparr>]\<rparr>)]"
  by (simp add: examplePolls_def station_defs number_defs)



section \<open>At most one message of each kind per occupancy\<close>

lemma countAt_Nil [simp]: "countAt kind outlet [] = 0"
  by (simp add: countAt_def)

lemma countAt_append [simp]:
  "countAt kind outlet (xs @ ys) = countAt kind outlet xs + countAt kind outlet ys"
  by (simp add: countAt_def)

lemma chargingCallback_startBudget:
  assumes "cu_outlet user = outlet \<longrightarrow> cu_id user = i"
    and "chargingCallback firstRun cfg maxTime currT user table = (table', out)"
  shows "countAt isSessionStarted outlet out + startBudget table' outlet i \<le> startBudget table outlet i"
proof -
  have "case chargingCallback firstRun cfg maxTime currT user table of
          (t, ms) \<Rightarrow> countAt isSessionStarted outlet ms + startBudget t outlet i \<le> startBudget table outlet i"
    using assms(1)
    by (simp add: chargingCallback_def Let_def countAt_def startBudget_def split: option.split)
  with assms(2) show ?thesis by simp
qed

lemma chargingCallback_exitBudget:
  assumes "cu_outlet user = outlet \<longrightarrow> cu_id user = i"
    and "chargingCallback firstRun cfg maxTime currT user table = (table', out)"
  shows "countAt isAlmostUp outlet out + exitBudget table' outlet i \<le> exitBudget table outlet i"
proof -
  have "case chargingCallback firstRun cfg maxTime currT user table of
          (t, ms) \<Rightarrow> countAt isAlmostUp outlet ms + exitBudget t outlet i \<le> exitBudget table outlet i"
    using assms(1)
    by (simp add: chargingCallback_def Let_def countAt_def exitBudget_def split: option.split)
  with assms(2) show ?thesis by simp
qed

lemma chargingCallback_no_turn:
  assumes "chargingCallback firstRun cfg maxTime currT user table = (table', out)"
  shows "countAt isYourTurn outlet out = 0"
proof -
  have "case chargingCallback firstRun cfg maxTime currT user table of
          (t, ms) \<Rightarrow> countAt isYourTurn outlet ms = 0"
    by (simp add: chargingCallback_def Let_def countAt_def split: option.split)
  with assms show ?thesis by simp
qed

lemma onHoldCallback_turnBudget:
  assumes "oh_outlet user = outlet \<longrightarrow> oh_id user = i"
    and "onHoldCallback cfg user table = (table', out)"
  shows "countAt isYourTurn outlet out + turnBudget table' outlet i \<le> turnBudget table outlet i"
proof -
  have "case onHoldCallback cfg user table of
          (t, ms) \<Rightarrow> countAt isYourTurn outlet ms + turnBudget t outlet i \<le> turnBudget table outlet i"
    using assms(1)
    by (simp add: onHoldCallback_def Let_def countAt_def turnBudget_def split: option.split)
  with assms(2) show ?thesis by simp
qed

lemma onHoldCallback_only_turn:
  assumes "onHoldCallback cfg user table = (table', out)"
  shows "countAt isSessionStarted outlet out = 0 \<and> countAt isAlmostUp outlet out = 0"
proof -
  have "case onHoldCallback cfg user table of
          (t, ms) \<Rightarrow> countAt isSessionStarted outlet ms = 0 \<and> countAt isAlmostUp outlet ms = 0"
    by (simp add: onHoldCallback_def Let_def countAt_def split: option.split)
  with assms show ?thesis by simp
qed

lemma forEachCharging_budget:
  assumes "\<forall>user \<in> set users. cu_outlet user = outlet \<longrightarrow> cu_id user = i"
    and "forEachCharging firstRun cfg maxTime currT users table = (table', out)"
  shows "countAt isSessionStarted outlet out + startBudget table' outlet i \<le> startBudget table outlet i
       \<and> countAt isAlmostUp outlet out + exitBudget table' outlet i \<le> exitBudget table outlet i
       \<and> countAt isYourTurn outlet out = 0"
  using assms
proof (induction users arbitrary: table table' out)
  case Nil
  then show ?case by simp
next
  case (Cons user users)
  obtain t1 o1 where cb: "chargingCallback firstRun cfg maxTime currT user table = (t1, o1)"
    by (cases "chargingCallback firstRun cfg maxTime currT user table")
  obtain t2 o2 where rest: "forEachCharging firstRun cfg maxTime currT users t1 = (t2, o2)"
    by (cases "forEachCharging firstRun cfg maxTime currT users t1")
  from Cons.prems(2) cb rest have eq: "table' = t2" "out = o1 @ o2" by simp_all
  from Cons.prems(1) have hd: "cu_outlet user = outlet \<longrightarrow> cu_id user = i" by simp
  from Cons.prems(1) have tl: "\<forall>user \<in> set users. cu_outlet user = outlet \<longrightarrow> cu_id user = i" by simp
  note h1 = chargingCallback_startBudget [OF hd cb]
  note h2 = chargingCallback_exitBudget [OF hd cb]
  note h3 = chargingCallback_no_turn [OF cb, of outlet]
  note r = Cons.IH [OF tl rest]
  from h1 h2 h3 r show ?case unfolding eq by simp
qed

lemma forEachOnHold_budget:
  assumes "\<forall>user \<in> set users. oh_outlet user = outlet \<longrightarrow> oh_id user = i"
    and "forEachOnHold cfg users table = (table', out)"
  shows "countAt isYourTurn outlet out + turnBudget table' outlet i \<le> turnBudget table outlet i
       \<and> countAt isSessionStarted outlet out = 0
       \<and> countAt isAlmostUp outlet out = 0"
  using assms
proof (induction users arbitrary: table table' out)
  case Nil
  then show ?case by simp
next
  case (Cons user users)
  obtain t1 o1 where cb: "onHoldCallback cfg user table = (t1, o1)"
    by (cases "onHoldCallback cfg user table")
  obtain t2 o2 where rest: "forEachOnHold cfg users t1 = (t2, o2)"
    by (cases "forEachOnHold cfg users t1")
  from Cons.prems(2) cb rest have eq: "table' = t2" "out = o1 @ o2" by simp_all
  from Cons.prems(1) have hd: "oh_outlet user = outlet \<longrightarrow> oh_id user = i" by simp
  from Cons.prems(1) have tl: "\<forall>user \<in> set users. oh_outlet user = outlet \<longrightarrow> oh_id user = i" by simp
  note h1 = onHoldCallback_turnBudget [OF hd cb]
  note h2 = onHoldCallback_only_turn [OF cb, of outlet]
  note r = Cons.IH [OF tl rest]
  from h1 h2 r show ?case unfolding eq by simp
qed

lemma processQueueDetail_budget:
  assumes "\<forall>user \<in> set (detailChargingUsers detail). cu_outlet user = outlet \<longrightarrow> cu_id user = i"
    and "\<forall>user \<in> set (detailOnHoldUsers detail). oh_outlet user = outlet \<longrightarrow> oh_id user = j"
    and "processQueueDetail firstRun cfg detail st = (st', out)"
  shows "countAt isSessionStarted outlet out + startBudget (chargingUsers st') outlet i
           \<le> startBudget (chargingUsers st) outlet i
       \<and> countAt isAlmostUp outlet out + exitBudget (chargingUsers st') outlet i
           \<le> exitBudget (chargingUsers st) outlet i
       \<and> countAt isYourTurn outlet out + turnBudget (onHoldUsers st') outlet j
           \<le> turnBudget (onHoldUsers st) outlet j"
proof -
  obtain c1 o1 where a: "forEachCharging firstRun cfg (maxChargingTime detail) (currTime detail)
             (detailChargingUsers detail) (chargingUsers st) = (c1, o1)"
    by (cases "forEachCharging firstRun cfg (maxChargingTime detail) (currTime detail)
             (detailChargingUsers detail) (chargingUsers st)")
  obtain h1 o2 where b: "forEachOnHold cfg (detailOnHoldUsers detail) (onHoldUsers st) = (h1, o2)"
    by (cases "forEachOnHold cfg (detailOnHoldUsers detail) (onHoldUsers st)")
  from assms(3) a b have eq: "st' = st\<lparr>chargingUsers := c1, onHoldUsers := h1\<rparr>" "out = o1 @ o2"
    by (simp_all add: processQueueDetail_def)
  note x = forEachCharging_budget [OF assms(1) a]
  note y = forEachOnHold_budget [OF assms(2) b]
  from x y show ?thesis unfolding eq by simp
qed

lemma processAll_budget:
  assumes "\<forall>p \<in> set polls. \<forall>user \<in> set (detailChargingUsers (snd p)). cu_outlet user = outlet \<longrightarrow> cu_id user = i"
    and "\<forall>p \<in> set polls. \<forall>user \<in> set (detailOnHoldUsers (snd p)). oh_outlet user = outlet \<longrightarrow> oh_id user = j"
    and "processAll cfg polls st = (st', out)"
  shows "countAt isSessionStarted outlet out + startBudget (chargingUsers st') outlet i
           \<le> startBudget (chargingUsers st) outlet i
       \<and> countAt isAlmostUp outlet out + exitBudget (chargingUsers st') outlet i
           \<le> exitBudget (chargingUsers st) outlet i
       \<and> countAt isYourTurn outlet out + turnBudget (onHoldUsers st') outlet j
           \<le> turnBudget (onHoldUsers st) outlet j"
  using assms
proof (induction polls arbitrary: st st' out)
  case Nil
  then show ?case by simp
next
  case (Cons p polls)
  obtain firstRun detail where p: "p = (firstRun, detail)" by (cases p)
  obtain s1 o1 where a: "processQueueDetail firstRun cfg detail st = (s1, o1)"
    by (cases "processQueueDetail firstRun cfg detail st")
  obtain s2 o2 where b: "processAll cfg polls s1 = (s2, o2)"
    by (cases "processAll cfg polls s1")
  from Cons.prems(3) p a b have eq: "st' = s2" "out = o1 @ o2" by simp_all
  from Cons.prems(1) p have c1: "\<forall>user \<in> set (detailChargingUsers detail). cu_outlet user = outlet \<longrightarrow> cu_id user = i" by simp
  from Cons.prems(2) p have c2: "\<forall>user \<in> set (detailOnHoldUsers detail). oh_outlet user = outlet \<longrightarrow> oh_id user = j" by simp
  from Cons.prems(1) have t1: "\<forall>p \<in> set polls. \<forall>user \<in> set (detailChargingUsers (snd p)). cu_outlet user = outlet \<longrightarrow> cu_id user = i" by simp
  from Cons.prems(2) have t2: "\<forall>p \<in> set polls. \<forall>user \<in> set (detailOnHoldUsers (snd p)). oh_outlet user = outlet \<longrightarrow> oh_id user = j" by simp
  note x = processQueueDetail_budget [OF c1 c2 a]
  note y = Cons.IH [OF t1 t2 b]
  from x y show ?case unfolding eq by simp
qed

lemma startBudget_le_1: "startBudget t outlet i \<le> 1"
  by (simp add: startBudget_def split: option.split)

lemma exitBudget_le_1: "exitBudget t outlet i \<le> 1"
  by (simp add: exitBudget_def split: option.split)

lemma turnBudget_le_1: "turnBudget t outlet i \<le> 1"
  by (simp add: turnBudget_def split: option.split)


text \<open>
  C1. Take any outlet and any sequence of consecutive snapshots in which every charging
  entry on that outlet has the same identifier \<open>i\<close> and every on-hold entry on that
  outlet has the same identifier \<open>j\<close>. Whatever the stored state before, whatever the
  \<^verbatim>\<open>firstRun\<close> argument of each invocation, and however often the threshold condition
  holds, processing the snapshots sends for that outlet at most one "session started"
  message, at most one "almost up" message and at most one "your turn" message.
\<close>

theorem same_occupant_notified_at_most_once:
  assumes "\<forall>p \<in> set polls. \<forall>user \<in> set (detailChargingUsers (snd p)). cu_outlet user = outlet \<longrightarrow> cu_id user = i"
    and "\<forall>p \<in> set polls. \<forall>user \<in> set (detailOnHoldUsers (snd p)). oh_outlet user = outlet \<longrightarrow> oh_id user = j"
  shows "countAt isSessionStarted outlet (snd (processAll cfg polls st)) \<le> 1
       \<and> countAt isAlmostUp outlet (snd (processAll cfg polls st)) \<le> 1
       \<and> countAt isYourTurn outlet (snd (processAll cfg polls st)) \<le> 1"
proof -
  obtain st' out where r: "processAll cfg polls st = (st', out)"
    by (cases "processAll cfg polls st")
  note b = processAll_budget [OF assms r]
  note u1 = startBudget_le_1 [of "chargingUsers st" outlet i]
  note u2 = exitBudget_le_1 [of "chargingUsers st" outlet i]
  note u3 = turnBudget_le_1 [of "onHoldUsers st" outlet j]
  from b u1 u2 u3 show ?thesis unfolding r by simp
qed

theorem same_occupant_notified_at_most_once_witness:
  "countAt isSessionStarted 1 (snd (processAll defaultConfig examplePolls initialState)) \<le> 1
   \<and> countAt isAlmostUp 1 (snd (processAll defaultConfig examplePolls initialState)) \<le> 1
   \<and> countAt isYourTurn 1 (snd (processAll defaultConfig examplePolls initialState)) \<le> 1"
proof -
  have h1: "\<forall>p \<in> set examplePolls. \<forall>user \<in> set (detailChargingUsers (snd p)).
              cu_outlet user = 1 \<longrightarrow> cu_id user = JStr ''A''"
    by (simp add: ex_values)
  have h2: "\<forall>p \<in> set examplePolls. \<forall>user \<in> set (detailOnHoldUsers (snd p)).
              oh_outlet user = 1 \<longrightarrow> oh_id user = JStr ''B''"
    by (simp add: ex_values)
  show ?thesis
    using same_occupant_notified_at_most_once [OF h1 h2] by simp
qed


text \<open>
  On the concrete station each of the three messages is sent exactly once over three
  polls, although the threshold condition holds in the second and the third.
\<close>

lemma example_messages:
  "snd (processAll defaultConfig examplePolls initialState) =
     [SessionStarted 1 ''farzaddaei'' (Fin 8200000), YourTurn 1 (Own ''WCMTDDDRV''),
      AlmostUp 1 (Own ''WCMTDDDRV'')]"
  by (simp add: ex_values defaultConfig_def configOfEnv_def envOr_def default_mapping
      initialState_def processQueueDetail_def chargingCallback_def onHoldCallback_def Let_def
      getProperty_def timeAlmostUp_def warningDeadline_def ofParsed_def)

section \<open>The record of an occupant who stays\<close>

lemma chargingCallback_same_occupant:
  assumes "table outlet = Some occ"
    and "cu_outlet user = outlet \<longrightarrow> cu_id user = cu_id occ"
    and "chargingCallback firstRun cfg maxTime currT user table = (table', out)"
  shows "table' outlet =
           Some (occ\<lparr>exitNotified := exitNotified occ \<or> 0 < countAt isAlmostUp outlet out\<rparr>)"
proof -
  have "case chargingCallback firstRun cfg maxTime currT user table of
          (t, ms) \<Rightarrow>
            t outlet = Some (occ\<lparr>exitNotified := exitNotified occ \<or> 0 < countAt isAlmostUp outlet ms\<rparr>)"
  proof (cases "cu_outlet user = outlet")
    case True
    with assms(1,2) have a: "table (cu_outlet user) = Some occ" "cu_id user = cu_id occ"
      by simp_all
    show ?thesis
      unfolding True [symmetric]
      by (simp add: chargingCallback_def Let_def countAt_def a split: option.split)
  next
    case False
    with assms(1) show ?thesis
      by (simp add: chargingCallback_def Let_def countAt_def split: option.split)
  qed
  with assms(3) show ?thesis by simp
qed

lemma onHoldCallback_same_occupant:
  assumes "table outlet = Some occ"
    and "oh_outlet user = outlet \<longrightarrow> oh_id user = oh_id occ"
    and "onHoldCallback cfg user table = (table', out)"
  shows "table' outlet =
           Some (occ\<lparr>waitingNotified := waitingNotified occ \<or> 0 < countAt isYourTurn outlet out\<rparr>)"
proof -
  have "case onHoldCallback cfg user table of
          (t, ms) \<Rightarrow>
            t outlet = Some (occ\<lparr>waitingNotified := waitingNotified occ \<or> 0 < countAt isYourTurn outlet ms\<rparr>)"
  proof (cases "oh_outlet user = outlet")
    case True
    with assms(1,2) have a: "table (oh_outlet user) = Some occ" "oh_id user = oh_id occ"
      by simp_all
    show ?thesis
      unfolding True [symmetric]
      by (simp add: onHoldCallback_def Let_def countAt_def a split: option.split)
  next
    case False
    with assms(1) show ?thesis
      by (simp add: onHoldCallback_def Let_def countAt_def split: option.split)
  qed
  with assms(3) show ?thesis by simp
qed

lemma forEachCharging_same_occupant:
  assumes "table outlet = Some occ"
    and "\<forall>user \<in> set users. cu_outlet user = outlet \<longrightarrow> cu_id user = cu_id occ"
    and "forEachCharging firstRun cfg maxTime currT users table = (table', out)"
  shows "table' outlet =
           Some (occ\<lparr>exitNotified := exitNotified occ \<or> 0 < countAt isAlmostUp outlet out\<rparr>)"
  using assms
proof (induction users arbitrary: table table' out occ)
  case Nil
  then show ?case by simp
next
  case (Cons user users)
  obtain t1 o1 where cb: "chargingCallback firstRun cfg maxTime currT user table = (t1, o1)"
    by (cases "chargingCallback firstRun cfg maxTime currT user table")
  obtain t2 o2 where rest: "forEachCharging firstRun cfg maxTime currT users t1 = (t2, o2)"
    by (cases "forEachCharging firstRun cfg maxTime currT users t1")
  from Cons.prems(3) cb rest have eq: "table' = t2" "out = o1 @ o2" by simp_all
  let ?occ1 = "occ\<lparr>exitNotified := exitNotified occ \<or> 0 < countAt isAlmostUp outlet o1\<rparr>"
  from Cons.prems(2) have hd: "cu_outlet user = outlet \<longrightarrow> cu_id user = cu_id occ" by simp
  have s1: "t1 outlet = Some ?occ1"
    by (rule chargingCallback_same_occupant [OF Cons.prems(1) hd cb])
  from Cons.prems(2)
  have tl: "\<forall>user \<in> set users. cu_outlet user = outlet \<longrightarrow> cu_id user = cu_id ?occ1" by simp
  have "t2 outlet =
          Some (?occ1\<lparr>exitNotified := exitNotified ?occ1 \<or> 0 < countAt isAlmostUp outlet o2\<rparr>)"
    by (rule Cons.IH [OF s1 tl rest])
  then show ?case unfolding eq by (simp add: disj_assoc)
qed

lemma forEachOnHold_same_occupant:
  assumes "table outlet = Some occ"
    and "\<forall>user \<in> set users. oh_outlet user = outlet \<longrightarrow> oh_id user = oh_id occ"
    and "forEachOnHold cfg users table = (table', out)"
  shows "table' outlet =
           Some (occ\<lparr>waitingNotified := waitingNotified occ \<or> 0 < countAt isYourTurn outlet out\<rparr>)"
  using assms
proof (induction users arbitrary: table table' out occ)
  case Nil
  then show ?case by simp
next
  case (Cons user users)
  obtain t1 o1 where cb: "onHoldCallback cfg user table = (t1, o1)"
    by (cases "onHoldCallback cfg user table")
  obtain t2 o2 where rest: "forEachOnHold cfg users t1 = (t2, o2)"
    by (cases "forEachOnHold cfg users t1")
  from Cons.prems(3) cb rest have eq: "table' = t2" "out = o1 @ o2" by simp_all
  let ?occ1 = "occ\<lparr>waitingNotified := waitingNotified occ \<or> 0 < countAt isYourTurn outlet o1\<rparr>"
  from Cons.prems(2) have hd: "oh_outlet user = outlet \<longrightarrow> oh_id user = oh_id occ" by simp
  have s1: "t1 outlet = Some ?occ1"
    by (rule onHoldCallback_same_occupant [OF Cons.prems(1) hd cb])
  from Cons.prems(2)
  have tl: "\<forall>user \<in> set users. oh_outlet user = outlet \<longrightarrow> oh_id user = oh_id ?occ1" by simp
  have "t2 outlet =
          Some (?occ1\<lparr>waitingNotified := waitingNotified ?occ1 \<or> 0 < countAt isYourTurn outlet o2\<rparr>)"
    by (rule Cons.IH [OF s1 tl rest])
  then show ?case unfolding eq by (simp add: disj_assoc)
qed

lemma forEachCharging_no_turn:
  assumes "forEachCharging firstRun cfg maxTime currT users table = (table', out)"
  shows "countAt isYourTurn outlet out = 0"
  using assms
proof (induction users arbitrary: table table' out)
  case Nil
  then show ?case by simp
next
  case (Cons user users)
  obtain t1 o1 where cb: "chargingCallback firstRun cfg maxTime currT user table = (t1, o1)"
    by (cases "chargingCallback firstRun cfg maxTime currT user table")
  obtain t2 o2 where rest: "forEachCharging firstRun cfg maxTime currT users t1 = (t2, o2)"
    by (cases "forEachCharging firstRun cfg maxTime currT users t1")
  from Cons.prems cb rest have eq: "out = o1 @ o2" by simp
  from chargingCallback_no_turn [OF cb, of outlet] Cons.IH [OF rest]
  show ?case unfolding eq by simp
qed

lemma forEachOnHold_only_turn:
  assumes "forEachOnHold cfg users table = (table', out)"
  shows "countAt isSessionStarted outlet out = 0 \<and> countAt isAlmostUp outlet out = 0"
  using assms
proof (induction users arbitrary: table table' out)
  case Nil
  then show ?case by simp
next
  case (Cons user users)
  obtain t1 o1 where cb: "onHoldCallback cfg user table = (t1, o1)"
    by (cases "onHoldCallback cfg user table")
  obtain t2 o2 where rest: "forEachOnHold cfg users t1 = (t2, o2)"
    by (cases "forEachOnHold cfg users t1")
  from Cons.prems cb rest have eq: "out = o1 @ o2" by simp
  from onHoldCallback_only_turn [OF cb, of outlet] Cons.IH [OF rest]
  show ?case unfolding eq by simp
qed

lemma processQueueDetail_same_charging:
  assumes "chargingUsers st outlet = Some occ"
    and "\<forall>user \<in> set (detailChargingUsers detail). cu_outlet user = outlet \<longrightarrow> cu_id user = cu_id occ"
    and "processQueueDetail firstRun cfg detail st = (st', out)"
  shows "chargingUsers st' outlet =
           Some (occ\<lparr>exitNotified := exitNotified occ \<or> 0 < countAt isAlmostUp outlet out\<rparr>)"
proof -
  obtain c1 o1 where a: "forEachCharging firstRun cfg (maxChargingTime detail) (currTime detail)
             (detailChargingUsers detail) (chargingUsers st) = (c1, o1)"
    by (cases "forEachCharging firstRun cfg (maxChargingTime detail) (currTime detail)
             (detailChargingUsers detail) (chargingUsers st)")
  obtain h1 o2 where b: "forEachOnHold cfg (detailOnHoldUsers detail) (onHoldUsers st) = (h1, o2)"
    by (cases "forEachOnHold cfg (detailOnHoldUsers detail) (onHoldUsers st)")
  from assms(3) a b have eq: "st' = st\<lparr>chargingUsers := c1, onHoldUsers := h1\<rparr>" "out = o1 @ o2"
    by (simp_all add: processQueueDetail_def)
  from forEachCharging_same_occupant [OF assms(1,2) a] forEachOnHold_only_turn [OF b, of outlet]
  show ?thesis unfolding eq by simp
qed

lemma processQueueDetail_same_onHold:
  assumes "onHoldUsers st outlet = Some occ"
    and "\<forall>user \<in> set (detailOnHoldUsers detail). oh_outlet user = outlet \<longrightarrow> oh_id user = oh_id occ"
    and "processQueueDetail firstRun cfg detail st = (st', out)"
  shows "onHoldUsers st' outlet =
           Some (occ\<lparr>waitingNotified := waitingNotified occ \<or> 0 < countAt isYourTurn outlet out\<rparr>)"
proof -
  obtain c1 o1 where a: "forEachCharging firstRun cfg (maxChargingTime detail) (currTime detail)
             (detailChargingUsers detail) (chargingUsers st) = (c1, o1)"
    by (cases "forEachCharging firstRun cfg (maxChargingTime detail) (currTime detail)
             (detailChargingUsers detail) (chargingUsers st)")
  obtain h1 o2 where b: "forEachOnHold cfg (detailOnHoldUsers detail) (onHoldUsers st) = (h1, o2)"
    by (cases "forEachOnHold cfg (detailOnHoldUsers detail) (onHoldUsers st)")
  from assms(3) a b have eq: "st' = st\<lparr>chargingUsers := c1, onHoldUsers := h1\<rparr>" "out = o1 @ o2"
    by (simp_all add: processQueueDetail_def)
  from forEachOnHold_same_occupant [OF assms(1,2) b] forEachCharging_no_turn [OF a, of outlet]
  show ?thesis unfolding eq by simp
qed

lemma processAll_same_charging:
  assumes "chargingUsers st outlet = Some occ"
    and "\<forall>p \<in> set polls. \<forall>user \<in> set (detailChargingUsers (snd p)).
           cu_outlet user = outlet \<longrightarrow> cu_id user = cu_id occ"
    and "processAll cfg polls st = (st', out)"
  shows "chargingUsers st' outlet =
           Some (occ\<lparr>exitNotified := exitNotified occ \<or> 0 < countAt isAlmostUp outlet out\<rparr>)"
  using assms
proof (induction polls arbitrary: st st' out occ)
  case Nil
  then show ?case by simp
next
  case (Cons p polls)
  obtain firstRun detail where p: "p = (firstRun, detail)" by (cases p)
  obtain s1 o1 where a: "processQueueDetail firstRun cfg detail st = (s1, o1)"
    by (cases "processQueueDetail firstRun cfg detail st")
  obtain s2 o2 where b: "processAll cfg polls s1 = (s2, o2)"
    by (cases "processAll cfg polls s1")
  from Cons.prems(3) p a b have eq: "st' = s2" "out = o1 @ o2" by simp_all
  let ?occ1 = "occ\<lparr>exitNotified := exitNotified occ \<or> 0 < countAt isAlmostUp outlet o1\<rparr>"
  from Cons.prems(2) p
  have hd: "\<forall>user \<in> set (detailChargingUsers detail). cu_outlet user = outlet \<longrightarrow> cu_id user = cu_id occ"
    by simp
  have s1: "chargingUsers s1 outlet = Some ?occ1"
    by (rule processQueueDetail_same_charging [OF Cons.prems(1) hd a])
  from Cons.prems(2)
  have tl: "\<forall>p \<in> set polls. \<forall>user \<in> set (detailChargingUsers (snd p)).
              cu_outlet user = outlet \<longrightarrow> cu_id user = cu_id ?occ1"
    by simp
  have "chargingUsers s2 outlet =
          Some (?occ1\<lparr>exitNotified := exitNotified ?occ1 \<or> 0 < countAt isAlmostUp outlet o2\<rparr>)"
    by (rule Cons.IH [OF s1 tl b])
  then show ?case unfolding eq by (simp add: disj_assoc)
qed

lemma processAll_same_onHold:
  assumes "onHoldUsers st outlet = Some occ"
    and "\<forall>p \<in> set polls. \<forall>user \<in> set (detailOnHoldUsers (snd p)).
           oh_outlet user = outlet \<longrightarrow> oh_id user = oh_id occ"
    and "processAll cfg polls st = (st', out)"
  shows "onHoldUsers st' outlet =
           Some (occ\<lparr>waitingNotified := waitingNotified occ \<or> 0 < countAt isYourTurn outlet out\<rparr>)"
  using assms
proof (induction polls arbitrary: st st' out occ)
  case Nil
  then show ?case by simp
next
  case (Cons p polls)
  obtain firstRun detail where p: "p = (firstRun, detail)" by (cases p)
  obtain s1 o1 where a: "processQueueDetail firstRun cfg detail st = (s1, o1)"
    by (cases "processQueueDetail firstRun cfg detail st")
  obtain s2 o2 where b: "processAll cfg polls s1 = (s2, o2)"
    by (cases "processAll cfg polls s1")
  from Cons.prems(3) p a b have eq: "st' = s2" "out = o1 @ o2" by simp_all
  let ?occ1 = "occ\<lparr>waitingNotified := waitingNotified occ \<or> 0 < countAt isYourTurn outlet o1\<rparr>"
  from Cons.prems(2) p
  have hd: "\<forall>user \<in> set (detailOnHoldUsers detail). oh_outlet user = outlet \<longrightarrow> oh_id user = oh_id occ"
    by simp
  have s1: "onHoldUsers s1 outlet = Some ?occ1"
    by (rule processQueueDetail_same_onHold [OF Cons.prems(1) hd a])
  from Cons.prems(2)
  have tl: "\<forall>p \<in> set polls. \<forall>user \<in> set (detailOnHoldUsers (snd p)).
              oh_outlet user = outlet \<longrightarrow> oh_id user = oh_id ?occ1"
    by simp
  have "onHoldUsers s2 outlet =
          Some (?occ1\<lparr>waitingNotified := waitingNotified ?occ1 \<or> 0 < countAt isYourTurn outlet o2\<rparr>)"
    by (rule Cons.IH [OF s1 tl b])
  then show ?case unfolding eq by (simp add: disj_assoc)
qed


text \<open>
  C9. While every entry that a sequence of snapshots reports for an outlet carries the
  identifier of the occupant stored there, on either track, the stored record keeps the
  identifier, name, status, start time and outlet it was stored with, whatever values
  the entries report for them; only the notification flag can differ afterwards, and a
  flag that was true is still true.
\<close>

theorem same_occupant_record_is_kept:
  "(chargingUsers st outlet = Some occ \<and>
    (\<forall>p \<in> set polls. \<forall>user \<in> set (detailChargingUsers (snd p)).
       cu_outlet user = outlet \<longrightarrow> cu_id user = cu_id occ)
    \<longrightarrow> (\<exists>occ'. chargingUsers (fst (processAll cfg polls st)) outlet = Some occ' \<and>
           cu_id occ' = cu_id occ \<and> cu_name occ' = cu_name occ \<and> cu_status occ' = cu_status occ \<and>
           cu_startTime occ' = cu_startTime occ \<and> cu_outlet occ' = cu_outlet occ \<and>
           (exitNotified occ \<longrightarrow> exitNotified occ')))
   \<and>
   (onHoldUsers st outlet = Some held \<and>
    (\<forall>p \<in> set polls. \<forall>user \<in> set (detailOnHoldUsers (snd p)).
       oh_outlet user = outlet \<longrightarrow> oh_id user = oh_id held)
    \<longrightarrow> (\<exists>held'. onHoldUsers (fst (processAll cfg polls st)) outlet = Some held' \<and>
           oh_id held' = oh_id held \<and> oh_name held' = oh_name held \<and>
           oh_status held' = oh_status held \<and> oh_outlet held' = oh_outlet held \<and>
           (waitingNotified held \<longrightarrow> waitingNotified held')))"
proof -
  obtain st' out where r: "processAll cfg polls st = (st', out)"
    by (cases "processAll cfg polls st")
  have c: "\<exists>occ'. chargingUsers st' outlet = Some occ' \<and>
           cu_id occ' = cu_id occ \<and> cu_name occ' = cu_name occ \<and> cu_status occ' = cu_status occ \<and>
           cu_startTime occ' = cu_startTime occ \<and> cu_outlet occ' = cu_outlet occ \<and>
           (exitNotified occ \<longrightarrow> exitNotified occ')"
    if "chargingUsers st outlet = Some occ"
      and "\<forall>p \<in> set polls. \<forall>user \<in> set (detailChargingUsers (snd p)).
             cu_outlet user = outlet \<longrightarrow> cu_id user = cu_id occ"
    using processAll_same_charging [OF that r] by simp
  have h: "\<exists>held'. onHoldUsers st' outlet = Some held' \<and>
           oh_id held' = oh_id held \<and> oh_name held' = oh_name held \<and>
           oh_status held' = oh_status held \<and> oh_outlet held' = oh_outlet held \<and>
           (waitingNotified held \<longrightarrow> waitingNotified held')"
    if "onHoldUsers st outlet = Some held"
      and "\<forall>p \<in> set polls. \<forall>user \<in> set (detailOnHoldUsers (snd p)).
             oh_outlet user = outlet \<longrightarrow> oh_id user = oh_id held"
    using processAll_same_onHold [OF that r] by simp
  from c h show ?thesis unfolding r by simp
qed

theorem same_occupant_record_is_kept_witness:
  "(\<exists>occ'. chargingUsers (fst (processAll defaultConfig examplePolls exampleState)) 1 = Some occ' \<and>
       cu_id occ' = JStr ''A'' \<and> cu_name occ' = ''farzaddaei'' \<and>
       cu_status occ' = JStr ''CHARGING'' \<and> cu_startTime occ' = Fin 500 \<and> cu_outlet occ' = 1 \<and>
       exitNotified occ')
   \<and>
   (\<exists>held'. onHoldUsers (fst (processAll defaultConfig examplePolls exampleState)) 1 = Some held' \<and>
       oh_id held' = JStr ''B'' \<and> oh_name held' = ''farzaddaei'' \<and>
       oh_status held' = JStr ''ACCEPT_PENDING'' \<and> oh_outlet held' = 1 \<and>
       waitingNotified held')"
proof -
  have c1: "chargingUsers exampleState 1 = Some exampleStored"
    by (simp add: exampleState_def)
  have c3: "\<forall>p \<in> set examplePolls. \<forall>u \<in> set (detailChargingUsers (snd p)).
              cu_outlet u = 1 \<longrightarrow> cu_id u = cu_id exampleStored"
    by (simp add: ex_values exampleStored_def)
  have d1: "onHoldUsers exampleState 1 = Some exampleHeld"
    by (simp add: exampleState_def)
  have d3: "\<forall>p \<in> set examplePolls. \<forall>u \<in> set (detailOnHoldUsers (snd p)).
              oh_outlet u = 1 \<longrightarrow> oh_id u = oh_id exampleHeld"
    by (simp add: ex_values exampleHeld_def)
  from same_occupant_record_is_kept
         [where st = exampleState and outlet = 1 and occ = exampleStored
            and polls = examplePolls and held = exampleHeld and cfg = defaultConfig]
       c1 c3 d1 d3
  show ?thesis by (simp add: exampleStored_def exampleHeld_def)
qed

section \<open>When the notification flags are reset\<close>

lemma fetched_charging_flag:
  "user \<in> set (detailChargingUsers (queueDetailOfMessage data)) \<Longrightarrow> exitNotified user = False"
  by (auto simp: queueDetailOfMessage_def toChargingUser_def)

lemma fetched_onHold_flag:
  "user \<in> set (detailOnHoldUsers (queueDetailOfMessage data)) \<Longrightarrow> waitingNotified user = False"
  by (auto simp: queueDetailOfMessage_def toOnHoldUser_def)

lemma chargingCallback_new_occupant:
  assumes "case table (cu_outlet user) of None \<Rightarrow> True | Some occ \<Rightarrow> cu_id occ \<noteq> cu_id user"
    and "exitNotified user = False"
  shows "fst (chargingCallback firstRun cfg maxTime currT user table) (cu_outlet user) =
           Some (user\<lparr>exitNotified :=
                   0 < countAt isAlmostUp (cu_outlet user)
                         (snd (chargingCallback firstRun cfg maxTime currT user table))\<rparr>)"
proof -
  have keep: "user\<lparr>exitNotified := False\<rparr> = user"
    using assms(2) by (cases user) simp
  have "case chargingCallback firstRun cfg maxTime currT user table of
          (t, ms) \<Rightarrow>
            t (cu_outlet user) =
              Some (user\<lparr>exitNotified := 0 < countAt isAlmostUp (cu_outlet user) ms\<rparr>)"
    using assms(1)
    by (simp add: chargingCallback_def Let_def countAt_def keep split: option.splits)
  then show ?thesis by (simp add: case_prod_unfold)
qed

lemma onHoldCallback_new_occupant:
  assumes "case table (oh_outlet user) of None \<Rightarrow> True | Some occ \<Rightarrow> oh_id occ \<noteq> oh_id user"
    and "waitingNotified user = False"
  shows "fst (onHoldCallback cfg user table) (oh_outlet user) =
           Some (user\<lparr>waitingNotified :=
                   0 < countAt isYourTurn (oh_outlet user) (snd (onHoldCallback cfg user table))\<rparr>)"
proof -
  have keep: "user\<lparr>waitingNotified := False\<rparr> = user"
    using assms(2) by (cases user) simp
  have "case onHoldCallback cfg user table of
          (t, ms) \<Rightarrow>
            t (oh_outlet user) =
              Some (user\<lparr>waitingNotified := 0 < countAt isYourTurn (oh_outlet user) ms\<rparr>)"
    using assms(1)
    by (simp add: onHoldCallback_def Let_def countAt_def keep split: option.splits)
  then show ?thesis by (simp add: case_prod_unfold)
qed

text \<open>
  C3. A flag is reset exactly by the arrival of a new occupant. When an entry of a
  fetched snapshot finds the outlet empty or held under another identifier, the entry
  is stored with its flag false (\<open>exitNotified\<close> on the charging track,
  \<open>waitingNotified\<close> on the on-hold track); the flag is true after the callback only if
  that very callback sent the message for the new occupant. Conversely, while every
  entry for the outlet carries the stored identifier, a flag that is true stays true
  over any sequence of snapshots: the stored record does not change at all.
\<close>

theorem flags_reset_only_for_new_occupant:
  "(user \<in> set (detailChargingUsers (queueDetailOfMessage data)) \<and>
    (case table (cu_outlet user) of None \<Rightarrow> True | Some former \<Rightarrow> cu_id former \<noteq> cu_id user)
    \<longrightarrow> exitNotified user = False \<and>
        fst (chargingCallback firstRun cfg maxTime currT user table) (cu_outlet user) =
          Some (user\<lparr>exitNotified :=
                  0 < countAt isAlmostUp (cu_outlet user)
                        (snd (chargingCallback firstRun cfg maxTime currT user table))\<rparr>))
   \<and>
   (waiting \<in> set (detailOnHoldUsers (queueDetailOfMessage data)) \<and>
    (case htable (oh_outlet waiting) of None \<Rightarrow> True | Some former \<Rightarrow> oh_id former \<noteq> oh_id waiting)
    \<longrightarrow> waitingNotified waiting = False \<and>
        fst (onHoldCallback cfg waiting htable) (oh_outlet waiting) =
          Some (waiting\<lparr>waitingNotified :=
                  0 < countAt isYourTurn (oh_outlet waiting)
                        (snd (onHoldCallback cfg waiting htable))\<rparr>))
   \<and>
   (chargingUsers st outlet = Some occ \<and> exitNotified occ \<and>
    (\<forall>p \<in> set polls. \<forall>u \<in> set (detailChargingUsers (snd p)).
       cu_outlet u = outlet \<longrightarrow> cu_id u = cu_id occ)
    \<longrightarrow> chargingUsers (fst (processAll cfg polls st)) outlet = Some occ)
   \<and>
   (onHoldUsers st outlet = Some held \<and> waitingNotified held \<and>
    (\<forall>p \<in> set polls. \<forall>u \<in> set (detailOnHoldUsers (snd p)).
       oh_outlet u = outlet \<longrightarrow> oh_id u = oh_id held)
    \<longrightarrow> onHoldUsers (fst (processAll cfg polls st)) outlet = Some held)"
proof -
  obtain st' out where r: "processAll cfg polls st = (st', out)"
    by (cases "processAll cfg polls st")
  have a: "exitNotified user = False \<and>
        fst (chargingCallback firstRun cfg maxTime currT user table) (cu_outlet user) =
          Some (user\<lparr>exitNotified :=
                  0 < countAt isAlmostUp (cu_outlet user)
                        (snd (chargingCallback firstRun cfg maxTime currT user table))\<rparr>)"
    if "user \<in> set (detailChargingUsers (queueDetailOfMessage data))"
      and "case table (cu_outlet user) of None \<Rightarrow> True | Some former \<Rightarrow> cu_id former \<noteq> cu_id user"
    using that
    by (simp add: chargingCallback_new_occupant fetched_charging_flag [of user data])
  have b: "waitingNotified waiting = False \<and>
        fst (onHoldCallback cfg waiting htable) (oh_outlet waiting) =
          Some (waiting\<lparr>waitingNotified :=
                  0 < countAt isYourTurn (oh_outlet waiting)
                        (snd (onHoldCallback cfg waiting htable))\<rparr>)"
    if "waiting \<in> set (detailOnHoldUsers (queueDetailOfMessage data))"
      and "case htable (oh_outlet waiting) of None \<Rightarrow> True | Some former \<Rightarrow> oh_id former \<noteq> oh_id waiting"
    using that
    by (simp add: onHoldCallback_new_occupant fetched_onHold_flag [of waiting data])
  have c: "chargingUsers st' outlet = Some occ"
    if "chargingUsers st outlet = Some occ" and "exitNotified occ"
      and "\<forall>p \<in> set polls. \<forall>u \<in> set (detailChargingUsers (snd p)).
             cu_outlet u = outlet \<longrightarrow> cu_id u = cu_id occ"
  proof -
    have "occ\<lparr>exitNotified := True\<rparr> = occ"
      using that(2) by (cases occ) simp
    with processAll_same_charging [OF that(1) that(3) r] that(2) show ?thesis by simp
  qed
  have d: "onHoldUsers st' outlet = Some held"
    if "onHoldUsers st outlet = Some held" and "waitingNotified held"
      and "\<forall>p \<in> set polls. \<forall>u \<in> set (detailOnHoldUsers (snd p)).
             oh_outlet u = outlet \<longrightarrow> oh_id u = oh_id held"
  proof -
    have "held\<lparr>waitingNotified := True\<rparr> = held"
      using that(2) by (cases held) simp
    with processAll_same_onHold [OF that(1) that(3) r] that(2) show ?thesis by simp
  qed
  from a b c d show ?thesis unfolding r by simp
qed

theorem flags_reset_only_for_new_occupant_witness:
  "(exitNotified exampleUser = False \<and>
    fst (chargingCallback Undefined defaultConfig (Some 7200) (Some 1000) exampleUser exampleFormerTable)
        (cu_outlet exampleUser) =
      Some (exampleUser\<lparr>exitNotified :=
              0 < countAt isAlmostUp (cu_outlet exampleUser)
                    (snd (chargingCallback Undefined defaultConfig (Some 7200) (Some 1000)
                            exampleUser exampleFormerTable))\<rparr>))
   \<and>
   (waitingNotified exampleWaiting = False \<and>
    fst (onHoldCallback defaultConfig exampleWaiting (\<lambda>outlet. None)) (oh_outlet exampleWaiting) =
      Some (exampleWaiting\<lparr>waitingNotified :=
              0 < countAt isYourTurn (oh_outlet exampleWaiting)
                    (snd (onHoldCallback defaultConfig exampleWaiting (\<lambda>outlet. None)))\<rparr>))
   \<and> chargingUsers (fst (processAll defaultConfig examplePolls exampleState)) 1 = Some exampleStored
   \<and> onHoldUsers (fst (processAll defaultConfig examplePolls exampleState)) 1 = Some exampleHeld"
proof -
  let ?data = "exampleMessage ''farzaddaei'' ''1000''"
  have a1: "exampleUser \<in> set (detailChargingUsers (queueDetailOfMessage ?data))"
    by (simp add: exampleUser_def queueDetailOfMessage_def exampleMessage_def toChargingUser_def
        exampleCharging_def)
  have a2: "case exampleFormerTable (cu_outlet exampleUser) of
              None \<Rightarrow> True | Some former \<Rightarrow> cu_id former \<noteq> cu_id exampleUser"
    by (simp add: exampleFormerTable_def exampleFormer_def exampleUser_def toChargingUser_def
        exampleCharging_def)
  have b1: "exampleWaiting \<in> set (detailOnHoldUsers (queueDetailOfMessage ?data))"
    by (simp add: exampleWaiting_def queueDetailOfMessage_def exampleMessage_def)
  have b2: "case (\<lambda>outlet. None :: onHoldUser option) (oh_outlet exampleWaiting) of
              None \<Rightarrow> True | Some former \<Rightarrow> oh_id former \<noteq> oh_id exampleWaiting"
    by simp
  have c1: "chargingUsers exampleState 1 = Some exampleStored"
    by (simp add: exampleState_def)
  have c2: "exitNotified exampleStored"
    by (simp add: exampleStored_def)
  have c3: "\<forall>p \<in> set examplePolls. \<forall>u \<in> set (detailChargingUsers (snd p)).
              cu_outlet u = 1 \<longrightarrow> cu_id u = cu_id exampleStored"
    by (simp add: ex_values exampleStored_def)
  have d1: "onHoldUsers exampleState 1 = Some exampleHeld"
    by (simp add: exampleState_def)
  have d2: "waitingNotified exampleHeld"
    by (simp add: exampleHeld_def)
  have d3: "\<forall>p \<in> set examplePolls. \<forall>u \<in> set (detailOnHoldUsers (snd p)).
              oh_outlet u = 1 \<longrightarrow> oh_id u = oh_id exampleHeld"
    by (simp add: ex_values exampleHeld_def)
  from flags_reset_only_for_new_occupant
         [where user = exampleUser and data = ?data and table = exampleFormerTable
            and firstRun = Undefined and cfg = defaultConfig and maxTime = "Some 7200"
            and currT = "Some 1000" and waiting = exampleWaiting
            and htable = "\<lambda>outlet. None" and st = exampleState and outlet = 1
            and occ = exampleStored and polls = examplePolls and held = exampleHeld]
       a1 a2 b1 b2 c1 c2 c3 d1 d2 d3
  show ?thesis by blast
qed

section \<open>What the fetch returns\<close>

text \<open>
  C7. The charging users returned are the remote entries whose \<^verbatim>\<open>subscriberId\<close> is not
  \<^verbatim>\<open>undefined\<close>, in order, each mapped field by field; no returned charging user has
  an undefined identifier. The on-hold users returned are all remote entries, mapped,
  with no filter: their identifiers are the remote ones, undefined included. Both flags
  start false.
\<close>

theorem fetch_filters_only_charging_users:
  "detailChargingUsers (queueDetailOfMessage data) =
     map toChargingUser (filter (\<lambda>user. subscriberId user \<noteq> Undefined) (msg_chargingUsers data))
   \<and> Undefined \<notin> set (map cu_id (detailChargingUsers (queueDetailOfMessage data)))
   \<and> detailOnHoldUsers (queueDetailOfMessage data) = map toOnHoldUser (msg_onHoldUsers data)
   \<and> map oh_id (detailOnHoldUsers (queueDetailOfMessage data)) =
       map oh_subscriberId (msg_onHoldUsers data)
   \<and> cu_id (toChargingUser remote) = subscriberId remote
   \<and> cu_name (toChargingUser remote) = subscriberEvatarName remote
   \<and> cu_status (toChargingUser remote) = subscriberQueueState remote
   \<and> cu_startTime (toChargingUser remote) =
       num_scale (ofParsed (parseInt (pluginEpochTime remote))) (1 / 1000)
   \<and> cu_outlet (toChargingUser remote) = outletNumber remote
   \<and> exitNotified (toChargingUser remote) = False
   \<and> oh_id (toOnHoldUser held) = oh_subscriberId held
   \<and> oh_name (toOnHoldUser held) = oh_subscriberEvatarName held
   \<and> oh_status (toOnHoldUser held) = portQueueSubState held
   \<and> oh_outlet (toOnHoldUser held) = oh_outletNumber held
   \<and> waitingNotified (toOnHoldUser held) = False
   \<and> getChargePointStationQueueDetail (Inr data) = Inr (queueDetailOfMessage data)"
proof -
  have a: "detailChargingUsers (queueDetailOfMessage data) =
     map toChargingUser (filter (\<lambda>user. subscriberId user \<noteq> Undefined) (msg_chargingUsers data))"
    by (simp add: queueDetailOfMessage_def filter_map comp_def toChargingUser_def)
  have b: "Undefined \<notin> set (map cu_id (detailChargingUsers (queueDetailOfMessage data)))"
    by (auto simp: queueDetailOfMessage_def)
  have c: "detailOnHoldUsers (queueDetailOfMessage data) = map toOnHoldUser (msg_onHoldUsers data)"
    by (simp add: queueDetailOfMessage_def)
  have d: "map oh_id (detailOnHoldUsers (queueDetailOfMessage data)) =
       map oh_subscriberId (msg_onHoldUsers data)"
    by (simp add: queueDetailOfMessage_def toOnHoldUser_def comp_def)
  have e: "getChargePointStationQueueDetail (Inr data) = Inr (queueDetailOfMessage data)"
    by (simp add: getChargePointStationQueueDetail_def)
  from a b c d e show ?thesis
    by (simp add: toChargingUser_def toOnHoldUser_def)
qed

text \<open>
  An entry without identifier is dropped from the charging users and kept among the
  on-hold users; an entry whose identifier is \<^verbatim>\<open>null\<close> is kept.
\<close>

lemma fetch_example:
  "map cu_id (detailChargingUsers (queueDetailOfMessage
      \<lparr> msg_maxChargingTime = ''7200'', msg_currTime = ''1000'',
        msg_chargingUsers = [exampleCharging ''a'', (exampleCharging ''b'')\<lparr>subscriberId := Undefined\<rparr>,
                             (exampleCharging ''c'')\<lparr>subscriberId := Null\<rparr>],
        msg_onHoldUsers = [exampleOnHold\<lparr>oh_subscriberId := Undefined\<rparr>] \<rparr>)) = [JStr ''A'', Null]
   \<and> map oh_id (detailOnHoldUsers (queueDetailOfMessage
      \<lparr> msg_maxChargingTime = ''7200'', msg_currTime = ''1000'',
        msg_chargingUsers = [exampleCharging ''a'', (exampleCharging ''b'')\<lparr>subscriberId := Undefined\<rparr>,
                             (exampleCharging ''c'')\<lparr>subscriberId := Null\<rparr>],
        msg_onHoldUsers = [exampleOnHold\<lparr>oh_subscriberId := Undefined\<rparr>] \<rparr>)) = [Undefined]"
  by (simp add: queueDetailOfMessage_def toChargingUser_def toOnHoldUser_def exampleCharging_def
      exampleOnHold_def)

section \<open>The first run\<close>

lemma chargingCallback_firstRun:
  "chargingCallback (JBool True) cfg maxTime currT user table =
     (fst (chargingCallback Undefined cfg maxTime currT user table),
      filter (\<lambda>n. \<not> isSessionStarted n) (snd (chargingCallback Undefined cfg maxTime currT user table)))"
  by (auto simp: chargingCallback_def Let_def split: option.split)

lemma onHoldCallback_no_session:
  "filter (\<lambda>n. \<not> isSessionStarted n) (snd (onHoldCallback cfg user table)) =
     snd (onHoldCallback cfg user table)"
  by (simp add: onHoldCallback_def Let_def split: option.split)

lemma forEachCharging_firstRun:
  "forEachCharging (JBool True) cfg maxTime currT users table =
     (fst (forEachCharging Undefined cfg maxTime currT users table),
      filter (\<lambda>n. \<not> isSessionStarted n) (snd (forEachCharging Undefined cfg maxTime currT users table)))"
proof (induction users arbitrary: table)
  case Nil
  show ?case by simp
next
  case (Cons user users)
  show ?case
    by (simp add: chargingCallback_firstRun Cons.IH case_prod_unfold)
qed

lemma forEachOnHold_no_session:
  "filter (\<lambda>n. \<not> isSessionStarted n) (snd (forEachOnHold cfg users table)) =
     snd (forEachOnHold cfg users table)"
proof (induction users arbitrary: table)
  case Nil
  show ?case by simp
next
  case (Cons user users)
  show ?case
    by (simp add: onHoldCallback_no_session Cons.IH case_prod_unfold)
qed

lemma processQueueDetail_firstRun:
  "processQueueDetail (JBool True) cfg detail st =
     (fst (processQueueDetail Undefined cfg detail st),
      filter (\<lambda>n. \<not> isSessionStarted n) (snd (processQueueDetail Undefined cfg detail st)))"
  by (simp add: processQueueDetail_def forEachCharging_firstRun forEachOnHold_no_session
      case_prod_unfold)

lemma pollChargePoint_firstRun:
  "pollChargePoint (JBool True) cfg env st =
     (pollChargePoint Undefined cfg env st)
       \<lparr>sent := filter (\<lambda>n. \<not> isSessionStarted n) (sent (pollChargePoint Undefined cfg env st))\<rparr>"
  by (simp add: pollChargePoint_def processQueueDetail_firstRun case_prod_unfold
      split: sum.split)

text \<open>
  The call \<^verbatim>\<open>pollChargePoint(true)\<close> sends no "session started" message; apart from
  that it does exactly what a call without argument does in the same state and
  environment: the same other messages, the same tables, the same timer.
\<close>

lemma startup_call_suppresses_session_started:
  "filter isSessionStarted (sent (pollChargePoint (JBool True) cfg env st)) = []
   \<and> sent (pollChargePoint (JBool True) cfg env st) =
       filter (\<lambda>n. \<not> isSessionStarted n) (sent (pollChargePoint Undefined cfg env st))
   \<and> stateAfter (pollChargePoint (JBool True) cfg env st) =
       stateAfter (pollChargePoint Undefined cfg env st)
   \<and> timer (pollChargePoint (JBool True) cfg env st) = timer (pollChargePoint Undefined cfg env st)
   \<and> settled (pollChargePoint (JBool True) cfg env st) =
       settled (pollChargePoint Undefined cfg env st)
   \<and> map fst (take 1 (program cfg (env # envs))) = [JBool True]"
proof -
  have "filter isSessionStarted (filter (\<lambda>n. \<not> isSessionStarted n) xs) = []" for xs
    by (induction xs) simp_all
  then show ?thesis
    by (simp add: pollChargePoint_firstRun [of cfg env st] program_def Let_def timer_def
        firstParameter_def)
qed

text \<open>
  C4. The first poll after the start of the process sends no "session started" message
  for the occupants it finds. The code does this only when the startup call itself
  polls. When the process starts on a day or at an hour that the gate skips, the
  startup call only sets a timer, the timer calls the function without argument, and
  the first poll announces the occupants it finds: here the process starts on a
  Saturday, and the first poll, on a Tuesday at 10, sends "session started" for the
  subscriber already charging.
\<close>

theorem first_poll_after_skipped_start_announces_sessions:
  "map (\<lambda>(arg, r). (arg, timer r, sent r))
     (program defaultConfig
        [exampleEnvironment 6 10 (Inr (exampleMessage ''farzaddaei'' ''1000'')),
         exampleEnvironment 2 10 (Inr (exampleMessage ''farzaddaei'' ''1000''))])
   = [(JBool True, Some (CNum 21600000), []),
      (Undefined, Some (CNum 60000),
       [SessionStarted 1 ''farzaddaei'' (Fin 8200000), YourTurn 1 (Own ''WCMTDDDRV'')])]"
  by (simp add: number_defs station_defs engine_defs cycle_defs)

text \<open>
  The same happens on a single day: started on a Tuesday at 7, the startup call sets the
  after-hours timer of one hour, and the first poll, at 8, announces the session.
\<close>

lemma first_poll_after_early_start_announces_sessions:
  "map (\<lambda>(arg, r). (arg, timer r, sent r))
     (program defaultConfig
        [exampleEnvironment 2 7 (Inr (exampleMessage ''farzaddaei'' ''1000'')),
         exampleEnvironment 2 8 (Inr (exampleMessage ''farzaddaei'' ''1000''))])
   = [(JBool True, Some (CNum 3600000), []),
      (Undefined, Some (CNum 60000),
       [SessionStarted 1 ''farzaddaei'' (Fin 8200000), YourTurn 1 (Own ''WCMTDDDRV'')])]"
  by (simp add: number_defs station_defs engine_defs cycle_defs)

text \<open>
  When the startup call polls, the other two messages are sent as usual: at second 7900
  the warning is due, and the subscriber on hold is told.
\<close>

lemma startup_call_example:
  "map (\<lambda>(arg, r). (arg, sent r))
     (program defaultConfig
        [exampleEnvironment 2 10 (Inr (exampleMessage ''farzaddaei'' ''7900''))])
   = [(JBool True, [AlmostUp 1 (Own ''WCMTDDDRV''), YourTurn 1 (Own ''WCMTDDDRV'')])]"
  by (simp add: number_defs station_defs engine_defs cycle_defs)

section \<open>The argument of each invocation\<close>

text \<open>
  Whatever its argument, its state and its environment, \<^verbatim>\<open>pollChargePoint\<close> sets no timer
  or one of three: the weekend timer, the after-hours timer or the regular one. None of
  them carries an argument for the call.
\<close>

lemma pollChargePoint_timers:
  "timerSet (pollChargePoint firstRun cfg env st) \<in>
     set [None,
          Some \<lparr> delay = CNum weekendSleepTime, arguments = [] \<rparr>,
          Some \<lparr> delay = CNum afterHoursSleepTime, arguments = [] \<rparr>,
          Some \<lparr> delay = pollingDelay cfg, arguments = [] \<rparr>]"
  by (simp add: pollChargePoint_def case_prod_unfold split: sum.split)

lemma timer_carries_no_argument:
  "(case timerSet (pollChargePoint firstRun cfg env st) of
      None \<Rightarrow> []
    | Some call \<Rightarrow> arguments call) = []"
  by (simp add: pollChargePoint_def case_prod_unfold split: sum.split)

lemma invocations_firstRun:
  "map fst (invocations cfg args (env # envs) st) =
     firstParameter args #
       replicate (length (invocations cfg args (env # envs) st) - 1) Undefined"
proof (induction envs arbitrary: args env st)
  case Nil
  show ?case by (simp add: Let_def split: option.split)
next
  case (Cons env' envs)
  let ?r = "pollChargePoint (firstParameter args) cfg env st"
  show ?case
  proof (cases "timerSet ?r")
    case None
    then show ?thesis by (simp add: Let_def)
  next
    case (Some call)
    from timer_carries_no_argument [of "firstParameter args" cfg env st] Some
    have none: "arguments call = []" by simp
    define rest where "rest = invocations cfg [] (env' # envs) (stateAfter ?r)"
    have step: "invocations cfg args (env # env' # envs) st = (firstParameter args, ?r) # rest"
      unfolding rest_def
      by (subst invocations.simps(2)) (simp add: Let_def Some none del: invocations.simps)
    have "map fst rest = firstParameter [] # replicate (length rest - 1) Undefined"
      unfolding rest_def by (rule Cons.IH)
    moreover have "0 < length rest"
      unfolding rest_def by (simp add: Let_def)
    ultimately have "map fst rest = replicate (length rest) Undefined"
      by (cases "length rest") (simp_all add: firstParameter_def)
    then show ?thesis
      unfolding step by simp
  qed
qed

text \<open>
  C10. The parameter \<^verbatim>\<open>firstRun\<close> is \<^verbatim>\<open>true\<close> only in the startup call. Every timer that
  \<^verbatim>\<open>pollChargePoint\<close> sets, after a weekend skip, after an after-hours skip or as the
  regular next cycle, is set without arguments for the call; so in every run the first
  invocation has \<^verbatim>\<open>firstRun\<close> true and every later one has it undefined, which is
  falsy.
\<close>

theorem only_the_startup_call_passes_firstRun:
  "(case timerSet (pollChargePoint firstRun cfg env st) of
      None \<Rightarrow> []
    | Some call \<Rightarrow> arguments call) = []
   \<and> timerSet (pollChargePoint firstRun cfg env st) \<in>
       set [None,
            Some \<lparr> delay = CNum weekendSleepTime, arguments = [] \<rparr>,
            Some \<lparr> delay = CNum afterHoursSleepTime, arguments = [] \<rparr>,
            Some \<lparr> delay = pollingDelay cfg, arguments = [] \<rparr>]
   \<and> map fst (program cfg (env # envs)) =
       JBool True # replicate (length (program cfg (env # envs)) - 1) Undefined
   \<and> firstParameter [] = Undefined \<and> truthy (JBool True) \<and> \<not> truthy Undefined"
proof -
  have "map fst (program cfg (env # envs)) =
          JBool True # replicate (length (program cfg (env # envs)) - 1) Undefined"
    unfolding program_def
    using invocations_firstRun [of cfg "[JBool True]" env envs initialState]
    by (simp add: firstParameter_def)
  with timer_carries_no_argument [of firstRun cfg env st]
    pollChargePoint_timers [of firstRun cfg env st]
  show ?thesis by (simp add: firstParameter_def)
qed

text \<open>
  A run through the three timers: a Saturday, a Tuesday at 7, then two regular cycles.
\<close>

lemma three_timers_example:
  "map (\<lambda>(arg, r). (arg, timerSet r))
     (program defaultConfig
        [exampleEnvironment 6 10 (Inr (exampleMessage ''farzaddaei'' ''1000'')),
         exampleEnvironment 2 7 (Inr (exampleMessage ''farzaddaei'' ''1000'')),
         exampleEnvironment 2 10 (Inr (exampleMessage ''farzaddaei'' ''1000'')),
         exampleEnvironment 2 10 (Inr (exampleMessage ''farzaddaei'' ''1000''))])
   = [(JBool True, Some \<lparr> delay = CNum 21600000, arguments = [] \<rparr>),
      (Undefined, Some \<lparr> delay = CNum 3600000, arguments = [] \<rparr>),
      (Undefined, Some \<lparr> delay = CNum 60000, arguments = [] \<rparr>),
      (Undefined, Some \<lparr> delay = CNum 60000, arguments = [] \<rparr>)]"
  by (simp add: number_defs station_defs engine_defs cycle_defs)

section \<open>The warning threshold\<close>

text \<open>
  For a stored occupant whose status is \<^verbatim>\<open>CHARGING\<close>, whose name is a key of the
  mapping and whose flag is false, the callback sends "almost up" exactly when the
  comparison of the source holds. With a numeric offset (no \<^verbatim>\<open>CPN_WARNING_OFFSET\<close> in
  the environment) the comparison is \<open>s + m \<le> c + d\<close> on numbers: it holds at equality
  and fails one unit above.
\<close>

lemma timeAlmostUp_numeric:
  "timeAlmostUp (Fin s) (Some m) (Some c) (CNum d) = (s + of_int m \<le> of_int c + d)"
  by (simp add: timeAlmostUp_def warningDeadline_def ofParsed_def)

lemma timeAlmostUp_text:
  "timeAlmostUp (Fin s) (Some m) (Some c) (CStr text) =
     num_le (Fin (s + of_int m)) (toNumber (numberToString (Some c) @ text))"
  by (simp add: timeAlmostUp_def warningDeadline_def ofParsed_def)

lemma almost_up_iff_condition:
  assumes "table (cu_outlet user) = Some occ" and "cu_id occ = cu_id user"
    and "cu_status occ = JStr ''CHARGING''" and "slackUserIds cfg (cu_name occ) = Some r"
    and "\<not> exitNotified occ"
  shows "snd (chargingCallback firstRun cfg maxTime currT user table) =
           (if timeAlmostUp (cu_startTime occ) maxTime currT (exitWarningOffset cfg)
            then [AlmostUp (cu_outlet user) (Own r)] else [])"
  using assms by (simp add: chargingCallback_def Let_def getProperty_def)

lemma almost_up_iff_threshold_for_numeric_offset:
  assumes "table (cu_outlet user) = Some occ" and "cu_id occ = cu_id user"
    and "cu_status occ = JStr ''CHARGING''" and "slackUserIds cfg (cu_name occ) = Some r"
    and "\<not> exitNotified occ"
    and "exitWarningOffset cfg = CNum d" and "cu_startTime occ = Fin s"
  shows "snd (chargingCallback firstRun cfg (Some m) (Some c) user table) =
           (if s + of_int m \<le> of_int c + d then [AlmostUp (cu_outlet user) (Own r)] else [])"
  using assms by (simp add: almost_up_iff_condition timeAlmostUp_numeric)

lemma threshold_boundary_numeric:
  "timeAlmostUp (Fin s) (Some m) (Some c) (CNum (s + of_int m - of_int c))
   \<and> \<not> timeAlmostUp (Fin (s + 1)) (Some m) (Some c) (CNum (s + of_int m - of_int c))"
  by (simp add: timeAlmostUp_numeric)

text \<open>
  C2. "Almost up" is sent if and only if \<open>startTime + maxChargingTime \<le> currTime +
  warningOffset\<close>. The code computes this when the offset is the numeric default. When
  \<^verbatim>\<open>CPN_WARNING_OFFSET\<close> is set, the constant is its text, \<^verbatim>\<open>currTime + exitWarningOffset\<close>
  concatenates, and the comparison is against the concatenated digits: with the offset
  set to 300 and a session from second 1000 to second 8200, the warning is sent at
  second 1000 already, since the deadline computed is 1000300 and not 1300. With the
  variable unset the same snapshot sends nothing.
\<close>

theorem warning_offset_from_environment_is_concatenated:
  "snd (processQueueDetail Undefined
          (configOfEnv None (Some ''300'') None None defaultSlackUserIds)
          (queueDetailOfMessage (exampleMessage ''farzaddaei'' ''1000''))
          exampleChargingState) = [AlmostUp 1 (Own ''WCMTDDDRV'')]
   \<and> snd (processQueueDetail Undefined defaultConfig
          (queueDetailOfMessage (exampleMessage ''farzaddaei'' ''1000''))
          exampleChargingState) = []
   \<and> warningDeadline (Some 1000) (CStr ''300'') = Fin 1000300
   \<and> warningDeadline (Some 1000) (CNum 300) = Fin 1300"
  by (simp add: number_defs station_defs engine_defs)

section \<open>Names without a recipient\<close>

text \<open>
  A stored occupant for whose name the lookup finds nothing gets neither "almost up" nor
  "your turn"; a name that is neither a key of the mapping nor a property of
  \<^verbatim>\<open>Object.prototype\<close> is such a name. "Session started" is sent without any lookup.
\<close>

lemma plain_unknown_name_has_no_recipient:
  assumes "obj nm = None" and "nm \<notin> set objectPrototypeKeys"
  shows "getProperty obj nm = None"
  using assms by (simp add: getProperty_def)

lemma no_recipient_no_almost_up:
  assumes "fst (chargingCallback firstRun cfg maxTime currT user table) (cu_outlet user) = Some occ"
    and "getProperty (slackUserIds cfg) (cu_name occ) = None"
  shows "filter isAlmostUp (snd (chargingCallback firstRun cfg maxTime currT user table)) = []"
proof -
  have "case chargingCallback firstRun cfg maxTime currT user table of
          (t, ms) \<Rightarrow>
            (case t (cu_outlet user) of
               None \<Rightarrow> True
             | Some occ \<Rightarrow>
                 (case getProperty (slackUserIds cfg) (cu_name occ) of
                    None \<Rightarrow> filter isAlmostUp ms = []
                  | Some r \<Rightarrow> True))"
    by (simp add: chargingCallback_def Let_def split: option.split)
  with assms show ?thesis by (simp add: case_prod_unfold)
qed

lemma no_recipient_no_your_turn:
  assumes "fst (onHoldCallback cfg user table) (oh_outlet user) = Some occ"
    and "getProperty (slackUserIds cfg) (oh_name occ) = None"
  shows "snd (onHoldCallback cfg user table) = []"
proof -
  have "case onHoldCallback cfg user table of
          (t, ms) \<Rightarrow>
            (case t (oh_outlet user) of
               None \<Rightarrow> True
             | Some occ \<Rightarrow>
                 (case getProperty (slackUserIds cfg) (oh_name occ) of
                    None \<Rightarrow> ms = []
                  | Some r \<Rightarrow> True))"
    by (simp add: onHoldCallback_def Let_def split: option.split)
  with assms show ?thesis by (simp add: case_prod_unfold)
qed

lemma session_started_needs_no_recipient:
  assumes "case table (cu_outlet user) of None \<Rightarrow> True | Some occ \<Rightarrow> cu_id occ \<noteq> cu_id user"
  shows "filter isSessionStarted (snd (chargingCallback Undefined cfg maxTime currT user table)) =
           [SessionStarted (cu_outlet user) (cu_name user)
              (num_scale (num_add (cu_startTime user) (ofParsed maxTime)) 1000)]"
proof -
  have "case chargingCallback Undefined cfg maxTime currT user table of
          (t, ms) \<Rightarrow> filter isSessionStarted ms =
            [SessionStarted (cu_outlet user) (cu_name user)
              (num_scale (num_add (cu_startTime user) (ofParsed maxTime)) 1000)]"
    using assms
    by (simp add: chargingCallback_def Let_def split: option.splits)
  then show ?thesis by (simp add: case_prod_unfold)
qed

text \<open>
  C8. No message that mentions a recipient is sent for an occupant whose name is absent
  from the mapping. The code tests \<^verbatim>\<open>slackUserIds[name] !== undefined\<close> on an object
  created as \<^verbatim>\<open>{}\<close>, so a name that is a property of \<^verbatim>\<open>Object.prototype\<close> passes the
  test although the mapping has no entry for it: a subscriber named \<^verbatim>\<open>constructor\<close> is
  sent "almost up", and one named \<^verbatim>\<open>toString\<close> is sent "your turn", each with the
  inherited property in place of a recipient.
\<close>

theorem inherited_property_passes_for_recipient:
  "defaultSlackUserIds ''constructor'' = None
   \<and> defaultSlackUserIds ''toString'' = None
   \<and> snd (processQueueDetail Undefined defaultConfig
          (queueDetailOfMessage
             \<lparr> msg_maxChargingTime = ''7200'', msg_currTime = ''7900'',
               msg_chargingUsers = [exampleCharging ''constructor''],
               msg_onHoldUsers = [exampleOnHold\<lparr>oh_subscriberEvatarName := ''toString''\<rparr>] \<rparr>)
          initialState)
       = [SessionStarted 1 ''constructor'' (Fin 8200000),
          AlmostUp 1 (Inherited ''constructor''),
          YourTurn 1 (Inherited ''toString'')]"
  by (simp add: number_defs station_defs engine_defs cycle_defs)

section \<open>A failed request\<close>

text \<open>
  An invocation sets no timer exactly when its promise is rejected, and an invocation
  that sets no timer is the last of the run. Past the gate, a failed token refresh or a
  failed fetch rejects the promise.
\<close>

lemma rejection_sets_no_timer:
  "(timer (pollChargePoint arg cfg env st) = None) =
     (settled (pollChargePoint arg cfg env st) \<noteq> Resolved)"
  by (simp add: pollChargePoint_def timer_def case_prod_unfold split: sum.split)

lemma no_timer_ends_run:
  assumes "timer (pollChargePoint (firstParameter args) cfg env st) = None"
  shows "invocations cfg args (env # envs) st =
           [(firstParameter args, pollChargePoint (firstParameter args) cfg env st)]"
  using assms by (simp add: Let_def timer_def)

lemma failed_fetch_rejects:
  assumes "getDay env \<noteq> sundayDayOfWeek" and "getDay env \<noteq> saturdayDayOfWeek"
    and "\<not> num_lt (Fin (of_nat (getHours env))) (cfgToNumber (workingStarTime cfg))"
    and "\<not> num_lt (cfgToNumber (workingStopTime cfg)) (Fin (of_nat (getHours env)))"
    and "authenticate cfg env st = Inr st1"
    and "queueResponse env = Inl e"
  shows "pollChargePoint arg cfg env st =
           \<lparr> stateAfter = st1, sent = [], timerSet = None, settled = Rejected e \<rparr>"
  using assms by (simp add: pollChargePoint_def getChargePointStationQueueDetail_def)

lemma failed_refresh_rejects:
  assumes "getDay env \<noteq> sundayDayOfWeek" and "getDay env \<noteq> saturdayDayOfWeek"
    and "\<not> num_lt (Fin (of_nat (getHours env))) (cfgToNumber (workingStarTime cfg))"
    and "\<not> num_lt (cfgToNumber (workingStopTime cfg)) (Fin (of_nat (getHours env)))"
    and "tokenIsDue cfg env st = Inr True"
    and "tokenResponse env = Inl e"
  shows "pollChargePoint arg cfg env st =
           \<lparr> stateAfter = st, sent = [], timerSet = None, settled = Rejected e \<rparr>"
  using assms by (simp add: pollChargePoint_def authenticate_def generateChargePointToken_def)

text \<open>
  C5. In the steady-state loop a failed session refresh or snapshot fetch aborts only the
  current cycle, and the next cycle is still scheduled. In the code the timer for the
  next cycle is set by the last statement of \<^verbatim>\<open>pollChargePoint\<close>, which a rejected
  \<^verbatim>\<open>await\<close> never reaches: after a second cycle whose fetch fails, or whose token
  refresh fails, no third invocation takes place although the station would answer.
\<close>

theorem rejected_cycle_schedules_nothing:
  "map (\<lambda>(arg, r). (arg, timer r, settled r))
     (program defaultConfig
        [exampleEnvironment 2 10 (Inr (exampleMessage ''farzaddaei'' ''1000'')),
         exampleEnvironment 2 10 (Inl (RequestFailed ''ETIMEDOUT'')),
         exampleEnvironment 2 10 (Inr (exampleMessage ''farzaddaei'' ''7900''))])
   = [(JBool True, Some (CNum 60000), Resolved),
      (Undefined, None, Rejected (RequestFailed ''ETIMEDOUT''))]
   \<and>
   map (\<lambda>(arg, r). (arg, timer r, settled r))
     (program defaultConfig
        [exampleEnvironment 2 10 (Inr (exampleMessage ''farzaddaei'' ''1000'')),
         (exampleEnvironment 2 10 (Inr (exampleMessage ''farzaddaei'' ''7900'')))
           \<lparr>timeAtCheck := 1800000, tokenResponse := Inl (RequestFailed ''ETIMEDOUT'')\<rparr>,
         exampleEnvironment 2 10 (Inr (exampleMessage ''farzaddaei'' ''7900''))])
   = [(JBool True, Some (CNum 60000), Resolved),
      (Undefined, None, Rejected (RequestFailed ''ETIMEDOUT''))]"
  by (simp add: number_defs station_defs engine_defs cycle_defs)


section \<open>The working-hours gate\<close>

text \<open>
  The long sleep is taken on the days 1 and 6 of \<^verbatim>\<open>getDay()\<close>; on the other days, with
  numeric bounds, the medium sleep is taken when the hour is below the start or above
  the stop.
\<close>

lemma weekend_branch:
  assumes "getDay env = 1 \<or> getDay env = 6"
  shows "pollChargePoint arg cfg env st =
           \<lparr> stateAfter = st, sent = [],
             timerSet = Some \<lparr> delay = CNum weekendSleepTime, arguments = [] \<rparr>,
             settled = Resolved \<rparr>"
  using assms by (auto simp: pollChargePoint_def sundayDayOfWeek_def saturdayDayOfWeek_def)

lemma after_hours_branch:
  assumes "getDay env \<noteq> 1" and "getDay env \<noteq> 6"
    and "workingStarTime cfg = CNum a" and "workingStopTime cfg = CNum b"
    and "of_nat (getHours env) < a \<or> b < of_nat (getHours env)"
  shows "pollChargePoint arg cfg env st =
           \<lparr> stateAfter = st, sent = [],
             timerSet = Some \<lparr> delay = CNum afterHoursSleepTime, arguments = [] \<rparr>,
             settled = Resolved \<rparr>"
  using assms
  by (auto simp: pollChargePoint_def sundayDayOfWeek_def saturdayDayOfWeek_def cfgToNumber_def)

text \<open>
  C6. The long sleep is taken exactly on Saturdays and Sundays. \<^verbatim>\<open>getDay()\<close> numbers the
  days from Sunday = 0, and the code compares with \<^verbatim>\<open>sundayDayOfWeek = 1\<close>: on a Sunday
  at 10 it polls and notifies, and on a Monday at 10 it takes the long sleep.
\<close>

theorem sunday_constant_is_monday:
  "map (\<lambda>(arg, r). (timer r, sent r))
     (program defaultConfig [exampleEnvironment 0 10 (Inr (exampleMessage ''farzaddaei'' ''7900''))])
   = [(Some (CNum 60000), [AlmostUp 1 (Own ''WCMTDDDRV''), YourTurn 1 (Own ''WCMTDDDRV'')])]
   \<and>
   map (\<lambda>(arg, r). (timer r, sent r))
     (program defaultConfig [exampleEnvironment 1 10 (Inr (exampleMessage ''farzaddaei'' ''7900''))])
   = [(Some (CNum 21600000), [])]"
  by (simp add: number_defs station_defs engine_defs cycle_defs)


end
